theory Spec2Isabelle
  imports Main "HOL-Library.Word"
begin

unbundle bit_operations_syntax

section \<open>The KS8851 SPI Ethernet driver (drivers/net/ethernet/micrel/ks8851.c)\<close>

text \<open>
  A shallow embedding of the register access layer, the transmit producer and consumer,
  the receive pipeline, the interrupt handler and the receive-filter update of the driver.
  C integers are machine words: \<open>unsigned\<close> and \<open>int\<close> are 32 bits wide, \<open>u16\<close> and
  \<open>u8\<close> are 16 and 8 bits, \<open>unsigned long\<close> (the statistics counters) is 64 bits. The
  host is little-endian (the driver is built for arm64), so \<open>cpu_to_le16\<close> only truncates
  to 16 bits while \<open>htons\<close> and \<open>htonl\<close> swap bytes.
\<close>

type_synonym u8 = "8 word"
type_synonym u16 = "16 word"
type_synonym u32 = "32 word"
type_synonym u64 = "64 word"

subsection \<open>Kernel helpers\<close>

text \<open>\<open>ALIGN(x, a)\<close> of linux/kernel.h on a 32-bit operand: \<open>(x + (a - 1)) & ~(a - 1)\<close>.\<close>

definition ALIGN :: "u32 \<Rightarrow> u32 \<Rightarrow> u32" where
  "ALIGN x a = (x + (a - 1)) AND NOT (a - 1)"

definition cpu_to_le16 :: "u32 \<Rightarrow> u16" where
  "cpu_to_le16 x = ucast x"

definition htons :: "u16 \<Rightarrow> u16" where
  "htons x = push_bit 8 x OR drop_bit 8 x"

definition htonl :: "u32 \<Rightarrow> u32" where
  "htonl x = push_bit 24 (x AND 0xff) OR push_bit 8 (x AND 0xff00)
             OR (drop_bit 8 x AND 0xff00) OR drop_bit 24 x"

subsection \<open>Constants of headers that are not part of the sources at hand\<close>

text \<open>
  ks8851.h (register bit masks, SPI opcodes) and linux/if.h (interface flags) are included
  by the driver but their text is not available, and \<open>ether_crc\<close> is a library routine.
  Their values are parameters of the model: every function that uses one of these macros
  takes the record \<open>h\<close>. Register addresses are only ever used as names of registers, so
  the registers the driver touches form the datatype \<open>reg\<close>; the numeric address matters
  to the bus layer alone, which is modelled on arbitrary addresses.
\<close>

record ks8851_h =
  KS_SPIOP_RD :: u32
  KS_SPIOP_WR :: u32
  IRQ_LCI :: u32
  IRQ_LDI :: u32
  IRQ_RXPSI :: u32
  IRQ_TXPSI :: u32
  IRQ_TXI :: u32
  IRQ_RXI :: u32
  IRQ_SPIBEI :: u32
  IRQ_RXOI :: u32
  PMECR_WKEVT_MASK :: u32
  PMECR_WKEVT_LINK :: u32
  PMECR_PM_MASK :: u32
  PMECR_PM_NORMAL :: u32
  GRR_QMU :: u32
  RXFDPR_RXFPAI :: u32
  RXQCR_SDA :: u32
  RXQCR_RRXEF :: u32
  RXQCR_RXFCTE :: u32
  RXQCR_RXDBCTE :: u32
  RXQCR_RXDTTE :: u32
  TXQCR_AETFE :: u32
  TXFDPR_TXFPAI :: u32
  TXFR_TXFID_MASK :: u32
  TXFR_TXIC :: u32
  TXCR_TXE :: u32
  TXCR_TXPE :: u32
  TXCR_TXCRC :: u32
  TXCR_TXFCE :: u32
  RXCR1_RXAE :: u32
  RXCR1_RXINVF :: u32
  RXCR1_RXME :: u32
  RXCR1_RXPAFMA :: u32
  RXCR1_RXMAFMA :: u32
  RXCR1_RXUE :: u32
  RXCR1_RXBE :: u32
  RXCR1_RXE :: u32
  RXCR1_RXFCE :: u32
  RXCR2_SRDBL_FRAME :: u32
  IFF_PROMISC :: u32
  IFF_ALLMULTI :: u32
  IFF_MULTICAST :: u32
  ether_crc :: "u8 list \<Rightarrow> u32"

datatype reg =
    KS_ISR | KS_IER | KS_PMECR | KS_GRR | KS_TXMIR | KS_TXQCR | KS_TXCR | KS_TXFDPR
  | KS_RXFC | KS_RXFHBCR | KS_RXFDPR | KS_RXQCR | KS_RXCR1 | KS_RXCR2
  | KS_RXDTTR | KS_RXDBCTR | KS_RXFCTR | KS_FCLWR | KS_FCHWR
  | KS_MAHTR0 | KS_MAHTR1 | KS_MAHTR2 | KS_MAHTR3

definition KSZ8851_TX_SPACE :: u32 where
  "KSZ8851_TX_SPACE = 6144 * 3"

definition MAX_RXFIFO_SIZE :: u32 where
  "MAX_RXFIFO_SIZE = 12 * 1024"

subsection \<open>Bus layer: the command word\<close>

text \<open>\<open>MK_OP(_byteen, _reg)\<close> with \<open>BYTE_EN(_x) = (_x) << 2\<close>; shifts bind tighter than \<open>|\<close>.\<close>

definition BYTE_EN :: "u32 \<Rightarrow> u32" where
  "BYTE_EN x = push_bit 2 x"

definition MK_OP :: "u32 \<Rightarrow> u32 \<Rightarrow> u32" where
  "MK_OP byteen r = BYTE_EN byteen OR push_bit (8 + 2) r OR drop_bit 6 r"

text \<open>The first 16-bit word \<open>txb[0]\<close> that each register access puts on the bus, and the
  \<open>op\<close> argument it is made of.\<close>

definition ks8851_wrreg16_op :: "u32 \<Rightarrow> u32" where
  "ks8851_wrreg16_op r = MK_OP (if r AND 2 \<noteq> 0 then 0xC else 0x03) r"

definition ks8851_wrreg16_txb :: "ks8851_h \<Rightarrow> u32 \<Rightarrow> u32 \<Rightarrow> u16 list" where
  "ks8851_wrreg16_txb h r val =
     [cpu_to_le16 (ks8851_wrreg16_op r OR KS_SPIOP_WR h), cpu_to_le16 val]"

definition ks8851_wrreg8_op :: "u32 \<Rightarrow> u32" where
  "ks8851_wrreg8_op r = (let bit = push_bit (unat (r AND 3)) 1 in MK_OP bit r)"

definition ks8851_wrreg8_txb :: "ks8851_h \<Rightarrow> u32 \<Rightarrow> u32 \<Rightarrow> u16 list" where
  "ks8851_wrreg8_txb h r val =
     [cpu_to_le16 (ks8851_wrreg8_op r OR KS_SPIOP_WR h), ucast val]"

definition ks8851_rdreg_txb :: "ks8851_h \<Rightarrow> u32 \<Rightarrow> u16" where
  "ks8851_rdreg_txb h op = cpu_to_le16 (op OR KS_SPIOP_RD h)"

definition ks8851_rdreg16_op :: "u32 \<Rightarrow> u32" where
  "ks8851_rdreg16_op r = MK_OP (if r AND 2 \<noteq> 0 then 0xC else 0x3) r"

definition ks8851_rdreg8_op :: "u32 \<Rightarrow> u32" where
  "ks8851_rdreg8_op r = MK_OP (push_bit (unat (r AND 3)) 1) r"

definition ks8851_32bitrdreg16_txd :: "ks8851_h \<Rightarrow> u32 \<Rightarrow> u32" where
  "ks8851_32bitrdreg16_txd h r =
     (let op = MK_OP (if r AND 2 \<noteq> 0 then 0xC else 0x3) r
      in htonl (0x0000ffff AND (op OR KS_SPIOP_RD h)))"

subsection \<open>Device context\<close>

record ks8851_rxctrl =
  mchash :: "u16 list"
  rxcr1 :: u16
  rxcr2 :: u16

text \<open>A socket buffer: its length, and its data as the packer reads it,
  \<open>((u32 *)txb->data)[index]\<close>.\<close>

record sk_buff =
  skb_len :: u32
  skb_data :: "nat \<Rightarrow> u32"

datatype work = Tx_work | Rx_work | Rxctrl_work

text \<open>What the driver does to the outside, in program order.\<close>

datatype event =
    Mutex_lock
  | Mutex_unlock
  | Wrreg16 reg u16
  | Rdreg8 reg
  | Rdreg16 reg
  | Rdreg32 reg
  | Rdfifolen nat
  | Rdfifo nat
  | Wrfifo "u32 list"
  | Netif_rx "u32 list" nat
  | Netif_wake_queue
  | Netif_stop_queue
  | Netif_start_queue
  | Queue_work work
  | Schedule_work work
  | Mii_check_link

text \<open>
  The fields of \<open>struct ks8851_net\<close> and of the net device's statistics that the modelled
  functions use, the log of events, and the two things the functions get from outside:
  \<open>dev_in\<close>, the 32-bit word the device answers to the \<open>n\<close>-th bus read (a failed
  transfer leaves stale or zero data, which is one of the possible answers), and
  \<open>mem_ok\<close>, whether the \<open>n\<close>-th buffer allocation succeeds.
\<close>

record ks8851_net =
  tx_space :: u16
  fid :: u8
  rc_ier :: u16
  rc_rxqcr :: u16
  rxctrl :: ks8851_rxctrl
  txq :: "sk_buff list"
  tx_packets :: u64
  tx_bytes :: u64
  rx_packets :: u64
  rx_bytes :: u64
  rx_over_errors :: u64
  trace :: "event list"
  dev_in :: "nat \<Rightarrow> u32"
  dev_pos :: nat
  mem_ok :: "nat \<Rightarrow> bool"
  mem_pos :: nat

definition emit :: "event \<Rightarrow> ks8851_net \<Rightarrow> ks8851_net" where
  "emit e ks = ks\<lparr>trace := trace ks @ [e]\<rparr>"

text \<open>One answer of the device, and one allocation attempt.\<close>

definition bus_read :: "ks8851_net \<Rightarrow> u32 \<times> ks8851_net" where
  "bus_read ks = (dev_in ks (dev_pos ks), ks\<lparr>dev_pos := dev_pos ks + 1\<rparr>)"

definition kmalloc :: "ks8851_net \<Rightarrow> bool \<times> ks8851_net" where
  "kmalloc ks = (mem_ok ks (mem_pos ks), ks\<lparr>mem_pos := mem_pos ks + 1\<rparr>)"

subsection \<open>Register access\<close>

definition ks8851_wrreg16 :: "reg \<Rightarrow> u32 \<Rightarrow> ks8851_net \<Rightarrow> ks8851_net" where
  "ks8851_wrreg16 r val ks = emit (Wrreg16 r (cpu_to_le16 val)) ks"

definition ks8851_rdreg16 :: "reg \<Rightarrow> ks8851_net \<Rightarrow> u32 \<times> ks8851_net" where
  "ks8851_rdreg16 r ks =
     (let (rx, ks1) = bus_read (emit (Rdreg16 r) ks)
      in (ucast (ucast rx :: u16), ks1))"

definition ks8851_rdreg8 :: "reg \<Rightarrow> ks8851_net \<Rightarrow> u32 \<times> ks8851_net" where
  "ks8851_rdreg8 r ks =
     (let (rx, ks1) = bus_read (emit (Rdreg8 r) ks)
      in (ucast (ucast rx :: u8), ks1))"

definition ks8851_32bitrdreg16 :: "reg \<Rightarrow> ks8851_net \<Rightarrow> u32 \<times> ks8851_net" where
  "ks8851_32bitrdreg16 r ks =
     (let (rxd, ks1) = bus_read (emit (Rdreg32 r) ks)
      in (ucast (htons (ucast rxd)), ks1))"

subsection \<open>Transmit producer\<close>

definition calc_txlen :: "u32 \<Rightarrow> u32" where
  "calc_txlen len = 4 + ALIGN len 4"

datatype netdev_tx = NETDEV_TX_OK | NETDEV_TX_BUSY

text \<open>\<open>ks->tx_space\<close> is a \<open>u16\<close>: the comparison promotes it to 32 bits, the
  subtraction is done in 32 bits and stored back truncated.\<close>

definition ks8851_start_xmit :: "sk_buff \<Rightarrow> ks8851_net \<Rightarrow> netdev_tx \<times> ks8851_net" where
  "ks8851_start_xmit skb ks =
     (let needed = calc_txlen (skb_len skb);
          (ret, ks1) =
            (if needed > ucast (tx_space ks)
             then (NETDEV_TX_BUSY, emit Netif_stop_queue ks)
             else (NETDEV_TX_OK,
                   ks\<lparr>tx_space := ucast (ucast (tx_space ks) - needed),
                      txq := txq ks @ [skb]\<rparr>))
      in (ret, emit (Queue_work Tx_work) ks1))"


subsection \<open>Transmit consumer\<close>

definition TX_DMA_BUFFER_SIZE :: nat where
  "TX_DMA_BUFFER_SIZE = 8192 * 3"

text \<open>The header word of one frame in the bulk transmit buffer, as \<open>ks8851_wrpkts3\<close>
  builds it: \<open>fid = ks->fid++; fid &= TXFR_TXFID_MASK; if (last || len >= 6144) fid |=
  TXFR_TXIC; buf32[len32] = htonl(cpu_to_le16(txb->len) << 16 | cpu_to_le16(fid))\<close>.\<close>

definition tx_fid :: "ks8851_h \<Rightarrow> u8 \<Rightarrow> bool \<Rightarrow> u32" where
  "tx_fid h f ic =
     (let fid0 = ucast f AND TXFR_TXFID_MASK h
      in if ic then fid0 OR TXFR_TXIC h else fid0)"

definition tx_hdr_word :: "u32 \<Rightarrow> u32 \<Rightarrow> u32" where
  "tx_hdr_word len fid0 =
     htonl (push_bit 16 (ucast (cpu_to_le16 len)) OR ucast (cpu_to_le16 fid0))"

text \<open>
  The packing loop \<open>for (count = 0; !last && len < 6144; count++)\<close>. \<open>buf\<close> holds the
  words \<open>buf32[0 .. len32 - 1]\<close> written so far and \<open>lst\<close> is the flag \<open>last\<close>; the buffer has room for
  \<open>TX_DMA_BUFFER_SIZE / 4\<close> words and a write beyond it ends the run as a fault (the
  result's first component). \<open>len\<close> is a \<open>u16\<close>, \<open>cpy\<close> too.
\<close>

function ks8851_wrpkts3_loop ::
  "ks8851_h \<Rightarrow> bool \<Rightarrow> u16 \<Rightarrow> u32 list \<Rightarrow> ks8851_net \<Rightarrow> bool \<times> u16 \<times> u32 list \<times> ks8851_net"
where
  "ks8851_wrpkts3_loop h lst len buf ks =
     (if \<not> lst \<and> len < 6144 then
        (case txq ks of
           [] \<Rightarrow> (False, len, buf, ks)
         | txb # rest \<Rightarrow>
            (let last1 = (rest = []);
                 fid0 = tx_fid h (fid ks) (last1 \<or> len \<ge> 6144);
                 cpy = (ucast (ALIGN (skb_len txb) 4 div 4) :: u16);
                 buf1 = buf @ [tx_hdr_word (skb_len txb) fid0]
                            @ map (\<lambda>index. htonl (skb_data txb index)) [0 ..< unat cpy];
                 len1 = len + ucast (4 + ALIGN (skb_len txb) 4);
                 ks1 = ks\<lparr>txq := rest, fid := fid ks + 1,
                          tx_bytes := tx_bytes ks + ucast (skb_len txb),
                          tx_packets := tx_packets ks + 1\<rparr>
             in if length buf1 > TX_DMA_BUFFER_SIZE div 4 then (True, len1, buf1, ks1)
                else ks8851_wrpkts3_loop h last1 len1 buf1 ks1))
      else (False, len, buf, ks))"
  by pat_completeness auto
termination
  by (relation "measure (\<lambda>(h, lst, len, buf, ks). length (txq ks))") auto

declare ks8851_wrpkts3_loop.simps [simp del]

datatype tx_exit = Tx_nomem | Tx_sent | Tx_fault

definition ks8851_wrpkts3 :: "ks8851_h \<Rightarrow> ks8851_net \<Rightarrow> tx_exit \<times> ks8851_net" where
  "ks8851_wrpkts3 h ks =
     (let lst = (txq ks = []);
          (ok, ks1) = kmalloc ks
      in if \<not> ok then (Tx_nomem, ks1)
         else
           (let (fault, len, buf, ks2) = ks8851_wrpkts3_loop h lst 0 [] ks1
            in if fault then (Tx_fault, ks2)
               else if len > 0 then (Tx_sent, emit (Wrfifo buf) ks2)
               else (Tx_sent, ks2)))"

text \<open>
  \<open>while (!last) { ks8851_wrpkts3(ks); last = skb_queue_empty(&ks->txq); }\<close> repeats
  for as long as the queue is not empty, also when the buffer allocation keeps failing:
  the loop takes fuel, and \<open>None\<close> is a run that has not ended within it.
\<close>

fun ks8851_tx_work_loop :: "nat \<Rightarrow> ks8851_h \<Rightarrow> ks8851_net \<Rightarrow> (bool \<times> ks8851_net) option" where
  "ks8851_tx_work_loop fuel h ks =
     (if txq ks = [] then Some (False, ks)
      else (case fuel of
              0 \<Rightarrow> None
            | Suc n \<Rightarrow>
               (case ks8851_wrpkts3 h ks of
                  (Tx_fault, ks1) \<Rightarrow> Some (True, ks1)
                | (_, ks1) \<Rightarrow> ks8851_tx_work_loop n h ks1)))"

declare ks8851_tx_work_loop.simps [simp del]

definition ks8851_tx_work :: "nat \<Rightarrow> ks8851_h \<Rightarrow> ks8851_net \<Rightarrow> (bool \<times> ks8851_net) option" where
  "ks8851_tx_work fuel h ks =
     (let ks1 = emit Mutex_lock ks
      in if txq ks1 \<noteq> [] then
           (let ks2 = ks8851_wrreg16 KS_TXQCR (TXQCR_AETFE h) ks1;
                ks3 = ks8851_wrreg16 KS_RXQCR (ucast (rc_rxqcr ks2) OR RXQCR_SDA h) ks2
            in case ks8851_tx_work_loop fuel h ks3 of
                 None \<Rightarrow> None
               | Some (True, ks4) \<Rightarrow> Some (True, ks4)
               | Some (False, ks4) \<Rightarrow>
                   Some (False,
                     emit Mutex_unlock (ks8851_wrreg16 KS_RXQCR (ucast (rc_rxqcr ks4)) ks4)))
         else Some (False, emit Mutex_unlock ks1))"


subsection \<open>Receive pipeline\<close>

text \<open>\<open>ENOMEM\<close> of errno-base.h. \<open>ks8851_rdfifolen\<close> returns an \<open>int\<close>, here its 32 bits.\<close>

definition ENOMEM :: u32 where
  "ENOMEM = 12"

fun ks8851_rdfifolen_loop :: "u32 list \<Rightarrow> u16 \<Rightarrow> u16" where
  "ks8851_rdfifolen_loop [] tmpfifosize = tmpfifosize"
| "ks8851_rdfifolen_loop (rx # rxd) tmpfifosize =
     (if ucast tmpfifosize \<ge> MAX_RXFIFO_SIZE then tmpfifosize
      else ks8851_rdfifolen_loop rxd
             (tmpfifosize + ucast (ALIGN (ucast (htons (ucast rx)) AND 0xfff) 4 + 4)))"

definition ks8851_rdfifolen :: "u16 \<Rightarrow> ks8851_net \<Rightarrow> u32 \<times> ks8851_net" where
  "ks8851_rdfifolen fc ks =
     (let (rxd_ok, ks1) = kmalloc ks
      in if \<not> rxd_ok then (- ENOMEM, ks1)
         else
           (let (msg_ok, ks2) = kmalloc ks1
            in if \<not> msg_ok then (- ENOMEM, ks2)
               else
                 (let ks3 = emit (Rdfifolen (unat fc)) ks2;
                      rxd = map (dev_in ks3) [dev_pos ks3 ..< dev_pos ks3 + unat fc];
                      ks4 = ks3\<lparr>dev_pos := dev_pos ks3 + unat fc\<rparr>;
                      tmpfifosize = ks8851_rdfifolen_loop rxd 0 + 4;
                      rxfifosize = (if ucast tmpfifosize \<ge> MAX_RXFIFO_SIZE
                                    then ucast MAX_RXFIFO_SIZE else tmpfifosize)
                  in (ucast rxfifosize, ks4))))"

text \<open>\<open>ks8851_rdfifo(ks, buff, len)\<close>: \<open>len / 4\<close> words of the receive FIFO.\<close>

definition ks8851_rdfifo :: "u32 \<Rightarrow> ks8851_net \<Rightarrow> u32 list \<times> ks8851_net" where
  "ks8851_rdfifo len ks =
     (let ks1 = emit (Rdfifo (unat len)) ks;
          n = unat len div 4
      in (map (dev_in ks1) [dev_pos ks1 ..< dev_pos ks1 + n],
          ks1\<lparr>dev_pos := dev_pos ks1 + n\<rparr>))"

text \<open>
  How a run of the receive pipeline ends. \<open>Rx_fault\<close> is an access outside the buffer at
  hand, or the use of the socket buffer that could not be allocated (the result of
  \<open>netdev_alloc_skb_ip_align\<close> is used unchecked): C leaves both undefined, and the
  model stops there.
\<close>

datatype rx_exit = Rx_nop | Rx_nomem_len | Rx_nomem_buf | Rx_nomem_buf1 | Rx_done | Rx_fault

text \<open>\<open>for (; rxlen32 > 0; rxlen32--, index32++) buf32[index32] = htonl(buf32[index32])\<close>\<close>

definition swap_words :: "nat \<Rightarrow> nat \<Rightarrow> u32 list \<Rightarrow> u32 list option" where
  "swap_words index32 rxlen32 buf32 =
     (if index32 + rxlen32 \<le> length buf32
      then Some (take index32 buf32 @ map htonl (take rxlen32 (drop index32 buf32))
                 @ drop (index32 + rxlen32) buf32)
      else None)"

text \<open>
  Handing one frame to the stack: \<open>rxalign\<close> bytes from \<open>rxpkt = &buf32[index32]\<close>, and
  the statistics.
\<close>

definition rx_deliver ::
  "u32 list \<Rightarrow> nat \<Rightarrow> u32 \<Rightarrow> u32 \<Rightarrow> ks8851_net \<Rightarrow> ks8851_net option" where
  "rx_deliver buf32 index32 rxalign rxlen ks =
     (let (skb_ok, ks1) = kmalloc ks
      in if \<not> skb_ok \<or> 4 * index32 + unat rxalign > 4 * length buf32 then None
         else Some ((emit (Netif_rx (take (unat rxalign div 4) (drop index32 buf32))
                                    (unat rxalign)) ks1)
                      \<lparr>rx_packets := rx_packets ks1 + 1,
                       rx_bytes := rx_bytes ks1 + ucast rxlen\<rparr>))"

text \<open>
  The short-buffer branch \<open>if (totallen > rxfifosize)\<close> once \<open>buf1\<close> is allocated:
  \<open>kzalloc\<close> hands out zeroed memory in units of words, so \<open>buf1\<close> has
  \<open>ALIGN(rxlen, 4) / 4\<close> words; the bytes still in \<open>buf\<close> are copied, the rest is
  fetched, the frame is delivered from \<open>buf1\<close>, and the loop is left.
\<close>

definition rx_short_buffer ::
  "u32 \<Rightarrow> u32 list \<Rightarrow> nat \<Rightarrow> u32 \<Rightarrow> u32 \<Rightarrow> u32 \<Rightarrow> ks8851_net \<Rightarrow> rx_exit \<times> ks8851_net" where
  "rx_short_buffer rxfifosize buf32 index32 rxlen rxalign totallen ks =
     (let size1 = unat (ALIGN rxlen 4) div 4;
          keep = rxalign - (totallen - rxfifosize);
          more = totallen - rxfifosize
      in if 4 * index32 + unat keep > 4 * length buf32 \<or> unat keep + unat more > 4 * size1
         then (Rx_fault, ks)
         else
           (let (fetched, ks1) = ks8851_rdfifo more ks;
                filled = take (unat keep div 4) (drop index32 buf32) @ fetched;
                buf1 = filled @ replicate (size1 - length filled) 0
            in case swap_words 0 (unat (ucast (ALIGN rxlen 4 div 4) :: u16)) buf1 of
                 None \<Rightarrow> (Rx_fault, ks1)
               | Some buf1s \<Rightarrow>
                  (case rx_deliver buf1s 0 rxalign rxlen ks1 of
                     None \<Rightarrow> (Rx_fault, ks1)
                   | Some ks2 \<Rightarrow> (Rx_done, ks2))))"

text \<open>
  The decode loop \<open>for (index32 = 1; rxfc > 0; rxfc--)\<close>. \<open>index32\<close> is a \<open>u16\<close> in
  the source; no buffer has more than 3072 words and every access is checked against the
  buffer, so it is a natural number here. \<open>Rx_done\<close> is the way out to the statements
  after the loop, by \<open>break\<close> or by the loop's end.
\<close>

function ks8851_rx_loop ::
  "u32 \<Rightarrow> u32 list \<Rightarrow> nat \<Rightarrow> u32 \<Rightarrow> u32 \<Rightarrow> ks8851_net \<Rightarrow> rx_exit \<times> ks8851_net" where
  "ks8851_rx_loop rxfifosize buf32 index32 rxfc totallen ks =
     (if rxfc = 0 then (Rx_done, ks)
      else if index32 \<ge> length buf32 then (Rx_fault, ks)
      else
        (let rxlen = drop_bit 16 (htonl (buf32 ! index32)) AND 0xfff;
             index32a = index32 + 1;
             rxalign = ALIGN (rxlen - 4) 4;
             rxlen32 = (ucast (ALIGN rxlen 4 div 4) :: u16);
             totallen1 = totallen + rxalign
         in if totallen1 > rxfifosize then
              (if sint rxfifosize \<ge> sint MAX_RXFIFO_SIZE then (Rx_done, ks)
               else
                 (let (buf1_ok, ks1) = kmalloc ks
                  in if \<not> buf1_ok then (Rx_nomem_buf1, ks1)
                     else rx_short_buffer rxfifosize buf32 index32a rxlen rxalign totallen1 ks1))
            else
              (case swap_words index32a (unat rxlen32) buf32 of
                 None \<Rightarrow> (Rx_fault, ks)
               | Some buf32s \<Rightarrow>
                  (case rx_deliver buf32s index32a rxalign rxlen ks of
                     None \<Rightarrow> (Rx_fault, ks)
                   | Some ks1 \<Rightarrow>
                       ks8851_rx_loop rxfifosize buf32s (index32a + unat rxlen32)
                         (rxfc - 1) totallen1 ks1))))"
  by pat_completeness auto
termination
  by (relation "measure (\<lambda>(rxfifosize, buf32, index32, rxfc, totallen, ks). unat rxfc)")
     (auto simp add: unat_minus_one unat_gt_0)

declare ks8851_rx_loop.simps [simp del]

definition ks8851_rx_pkts3 :: "ks8851_h \<Rightarrow> ks8851_net \<Rightarrow> rx_exit \<times> ks8851_net" where
  "ks8851_rx_pkts3 h ks =
     (let (rxfc, ks1) = ks8851_rdreg8 KS_RXFC ks
      in if rxfc = 0 then (Rx_nop, ks1)
         else
           (let (rxfifosize, ks2) = ks8851_rdfifolen (ucast rxfc) ks1
            in if sint rxfifosize \<le> 0 then (Rx_nomem_len, ks2)
               else
                 (let (buf_ok, ks3) = kmalloc ks2
                  in if \<not> buf_ok then (Rx_nomem_buf, ks3)
                     else
                       (let ks4 = ks8851_wrreg16 KS_RXFDPR (RXFDPR_RXFPAI h OR 0x00) ks3;
                            ks5 = ks8851_wrreg16 KS_RXQCR
                                    (ucast (rc_rxqcr ks4) OR RXQCR_SDA h) ks4;
                            (buf32, ks6) = ks8851_rdfifo rxfifosize ks5
                        in case ks8851_rx_loop rxfifosize buf32 1 rxfc 0 ks6 of
                             (Rx_done, ks7) \<Rightarrow>
                               (Rx_done,
                                ks8851_wrreg16 KS_RXQCR
                                  (ucast (rc_rxqcr ks7) OR RXQCR_RRXEF h) ks7)
                           | (ex, ks7) \<Rightarrow> (ex, ks7)))))"

subsection \<open>Interrupt handler\<close>

text \<open>The bits of \<open>status\<close> that the handler collects in \<open>handled\<close>.\<close>

definition irq_handled :: "ks8851_h \<Rightarrow> u32 \<Rightarrow> u32" where
  "irq_handled h status =
     (let handled = 0;
          handled = (if status AND IRQ_LCI h \<noteq> 0 then handled OR IRQ_LCI h else handled);
          handled = (if status AND IRQ_LDI h \<noteq> 0 then handled OR IRQ_LDI h else handled);
          handled = (if status AND IRQ_RXPSI h \<noteq> 0 then handled OR IRQ_RXPSI h else handled);
          handled = (if status AND IRQ_TXI h \<noteq> 0 then handled OR IRQ_TXI h else handled);
          handled = (if status AND IRQ_RXI h \<noteq> 0 then handled OR IRQ_RXI h else handled);
          handled = (if status AND IRQ_SPIBEI h \<noteq> 0 then handled OR IRQ_SPIBEI h else handled)
      in handled)"

text \<open>The link-down branch: \<open>u16 pmecr\<close> is read, masked and written back.\<close>

definition irq_ldi :: "ks8851_h \<Rightarrow> ks8851_net \<Rightarrow> ks8851_net" where
  "irq_ldi h ks =
     (let (rd, ks1) = ks8851_32bitrdreg16 KS_PMECR ks;
          pmecr = (ucast rd :: u16);
          pmecr = (ucast (ucast pmecr AND NOT (PMECR_WKEVT_MASK h)) :: u16)
      in ks8851_wrreg16 KS_PMECR (ucast pmecr OR PMECR_WKEVT_LINK h) ks1)"

text \<open>The transmit-done branch: \<open>ks->tx_space = ks8851_rdreg16(ks, KS_TXMIR)\<close>.\<close>

definition irq_txi :: "ks8851_net \<Rightarrow> ks8851_net" where
  "irq_txi ks =
     (let (rd, ks1) = ks8851_rdreg16 KS_TXMIR ks
      in emit Netif_wake_queue (ks1\<lparr>tx_space := ucast rd\<rparr>))"

text \<open>The writes of the pending receive filter when the receive process has stopped.\<close>

definition irq_rxpsi :: "ks8851_net \<Rightarrow> ks8851_net" where
  "irq_rxpsi ks =
     (let rxc = rxctrl ks;
          ks1 = ks8851_wrreg16 KS_MAHTR0 (ucast (mchash rxc ! 0)) ks;
          ks2 = ks8851_wrreg16 KS_MAHTR1 (ucast (mchash rxc ! 1)) ks1;
          ks3 = ks8851_wrreg16 KS_MAHTR2 (ucast (mchash rxc ! 2)) ks2;
          ks4 = ks8851_wrreg16 KS_MAHTR3 (ucast (mchash rxc ! 3)) ks3;
          ks5 = ks8851_wrreg16 KS_RXCR2 (ucast (rxcr2 rxc)) ks4
      in ks8851_wrreg16 KS_RXCR1 (ucast (rxcr1 rxc)) ks5)"

text \<open>The handler from \<open>mutex_lock\<close> to the write of \<open>handled\<close> to \<open>KS_ISR\<close>.\<close>

definition irq_status :: "ks8851_h \<Rightarrow> ks8851_net \<Rightarrow> u32 \<times> ks8851_net" where
  "irq_status h ks =
     (let ks1 = emit Mutex_lock ks;
          (status, ks2) = ks8851_32bitrdreg16 KS_ISR ks1;
          ks3 = (if status AND IRQ_LDI h \<noteq> 0 then irq_ldi h ks2 else ks2);
          ks4 = (if status AND IRQ_TXI h \<noteq> 0 then irq_txi ks3 else ks3)
      in (status, ks8851_wrreg16 KS_ISR (irq_handled h status) ks4))"

text \<open>The whole handler. The first component of the result says whether the inline
  receive run ended in \<open>Rx_fault\<close>, after which nothing more is executed.\<close>

definition ks8851_irq :: "ks8851_h \<Rightarrow> ks8851_net \<Rightarrow> bool \<times> ks8851_net" where
  "ks8851_irq h ks =
     (let (status, ks1) = irq_status h ks;
          (ex, ks2) = (if status AND IRQ_RXI h \<noteq> 0 then ks8851_rx_pkts3 h ks1
                       else (Rx_nop, ks1))
      in if ex = Rx_fault then (True, ks2)
         else
           (let ks3 = (if status AND IRQ_RXPSI h \<noteq> 0 then irq_rxpsi ks2 else ks2);
                ks4 = (if status AND IRQ_RXOI h \<noteq> 0
                       then ks3\<lparr>rx_over_errors := rx_over_errors ks3 + 1\<rparr> else ks3);
                ks5 = emit Mutex_unlock ks4
            in (False, if status AND IRQ_LCI h \<noteq> 0 then emit Mii_check_link ks5 else ks5)))"

definition ks8851_rx_work :: "ks8851_h \<Rightarrow> ks8851_net \<Rightarrow> bool \<times> ks8851_net" where
  "ks8851_rx_work h ks =
     (let (ex, ks1) = ks8851_rx_pkts3 h (emit Mutex_lock ks)
      in if ex = Rx_fault then (True, ks1) else (False, emit Mutex_unlock ks1))"


subsection \<open>Receive filter\<close>

record net_device =
  dev_flags :: u32
  mc_list :: "u8 list list"

definition ETH_ALEN :: nat where
  "ETH_ALEN = 6"

text \<open>One round of \<open>netdev_for_each_mc_addr\<close>: \<open>crc = ether_crc(ETH_ALEN, ha->addr);
  crc >>= (32 - 6); rxctrl.mchash[crc >> 4] |= (1 << (crc & 0xf))\<close>.\<close>

definition mc_hash_add :: "ks8851_h \<Rightarrow> u16 list \<Rightarrow> u8 list \<Rightarrow> u16 list" where
  "mc_hash_add h mch addr =
     (let crc = ether_crc h (take ETH_ALEN addr);
          crc = drop_bit (32 - 6) crc;
          i = unat (drop_bit 4 crc)
      in mch[i := mch ! i OR ucast (push_bit (unat (crc AND 0xf)) (1 :: u32))])"

text \<open>The settings that \<open>ks8851_set_rx_mode\<close> computes in its local \<open>rxctrl\<close>.\<close>

definition rx_mode_settings :: "ks8851_h \<Rightarrow> net_device \<Rightarrow> ks8851_rxctrl" where
  "rx_mode_settings h dev =
     (let z = \<lparr>mchash = [0, 0, 0, 0], rxcr1 = 0, rxcr2 = 0\<rparr>;
          r = (if dev_flags dev AND IFF_PROMISC h \<noteq> 0 then
                 z\<lparr>rxcr1 := ucast (RXCR1_RXAE h OR RXCR1_RXINVF h)\<rparr>
               else if dev_flags dev AND IFF_ALLMULTI h \<noteq> 0 then
                 z\<lparr>rxcr1 := ucast (RXCR1_RXME h OR RXCR1_RXAE h OR
                                   RXCR1_RXPAFMA h OR RXCR1_RXMAFMA h)\<rparr>
               else if dev_flags dev AND IFF_MULTICAST h \<noteq> 0 \<and> mc_list dev \<noteq> [] then
                 z\<lparr>mchash := foldl (mc_hash_add h) (mchash z) (mc_list dev),
                   rxcr1 := ucast (RXCR1_RXME h OR RXCR1_RXPAFMA h)\<rparr>
               else
                 z\<lparr>rxcr1 := ucast (RXCR1_RXPAFMA h)\<rparr>)
      in r\<lparr>rxcr1 := rxcr1 r OR ucast (RXCR1_RXUE h OR RXCR1_RXBE h OR
                                        RXCR1_RXE h OR RXCR1_RXFCE h),
            rxcr2 := rxcr2 r OR ucast (RXCR2_SRDBL_FRAME h)\<rparr>)"

text \<open>\<open>memcmp\<close> over the six 16-bit fields of the structure is equality of the record.\<close>

definition ks8851_set_rx_mode :: "ks8851_h \<Rightarrow> net_device \<Rightarrow> ks8851_net \<Rightarrow> ks8851_net" where
  "ks8851_set_rx_mode h dev ks =
     (let rxctrl1 = rx_mode_settings h dev
      in if rxctrl1 \<noteq> rxctrl ks
         then emit (Schedule_work Rxctrl_work) (ks\<lparr>rxctrl := rxctrl1\<rparr>)
         else ks)"

definition ks8851_rxctrl_work :: "ks8851_net \<Rightarrow> ks8851_net" where
  "ks8851_rxctrl_work ks =
     emit Mutex_unlock (ks8851_wrreg16 KS_RXCR1 0x00 (emit Mutex_lock ks))"

subsection \<open>Opening the device, and attaching it\<close>

definition ks8851_soft_reset :: "u32 \<Rightarrow> ks8851_net \<Rightarrow> ks8851_net" where
  "ks8851_soft_reset op ks = ks8851_wrreg16 KS_GRR 0 (ks8851_wrreg16 KS_GRR op ks)"

definition ks8851_set_powermode :: "ks8851_h \<Rightarrow> u32 \<Rightarrow> ks8851_net \<Rightarrow> ks8851_net" where
  "ks8851_set_powermode h pwrmode ks =
     (let (pmecr, ks1) = ks8851_32bitrdreg16 KS_PMECR ks;
          pmecr = pmecr AND NOT (PMECR_PM_MASK h);
          pmecr = pmecr OR pwrmode
      in ks8851_wrreg16 KS_PMECR pmecr ks1)"

definition STD_IRQ :: "ks8851_h \<Rightarrow> u32" where
  "STD_IRQ h = IRQ_LCI h OR IRQ_TXI h OR IRQ_RXI h OR IRQ_SPIBEI h OR IRQ_TXPSI h OR IRQ_RXPSI h"

definition ks8851_net_open :: "ks8851_h \<Rightarrow> ks8851_net \<Rightarrow> ks8851_net" where
  "ks8851_net_open h ks =
     (let ks = emit Mutex_lock ks;
          ks = ks8851_set_powermode h (PMECR_PM_NORMAL h) ks;
          ks = ks8851_soft_reset (GRR_QMU h) ks;
          ks = ks8851_wrreg16 KS_TXCR
                 (TXCR_TXE h OR TXCR_TXPE h OR TXCR_TXCRC h OR TXCR_TXFCE h) ks;
          ks = ks8851_wrreg16 KS_TXFDPR (TXFDPR_TXFPAI h) ks;
          ks = ks8851_wrreg16 KS_RXCR1
                 (RXCR1_RXPAFMA h OR RXCR1_RXFCE h OR RXCR1_RXBE h OR RXCR1_RXUE h OR
                  RXCR1_RXE h) ks;
          ks = ks8851_wrreg16 KS_RXCR2 (RXCR2_SRDBL_FRAME h) ks;
          ks = ks8851_wrreg16 KS_RXDTTR 1000 ks;
          ks = ks8851_wrreg16 KS_RXDBCTR 4096 ks;
          ks = ks8851_wrreg16 KS_RXFCTR 10 ks;
          ks = ks\<lparr>rc_rxqcr := ucast (RXQCR_RXFCTE h OR RXQCR_RXDBCTE h OR RXQCR_RXDTTE h)\<rparr>;
          ks = ks8851_wrreg16 KS_RXQCR (ucast (rc_rxqcr ks)) ks;
          ks = ks8851_wrreg16 KS_FCLWR 0x800 ks;
          ks = ks8851_wrreg16 KS_FCHWR 0x400 ks;
          ks = ks\<lparr>rc_ier := ucast (STD_IRQ h)\<rparr>;
          ks = ks8851_wrreg16 KS_ISR (STD_IRQ h) ks;
          ks = ks8851_wrreg16 KS_IER (STD_IRQ h) ks;
          ks = emit Netif_start_queue ks
      in emit Mutex_unlock ks)"

text \<open>
  \<open>alloc_etherdev\<close> hands \<open>ks8851_probe\<close> a zeroed private area. \<open>d\<close> and \<open>m\<close> are
  what the device will answer and which allocations will succeed.
\<close>

definition alloc_etherdev :: "(nat \<Rightarrow> u32) \<Rightarrow> (nat \<Rightarrow> bool) \<Rightarrow> ks8851_net" where
  "alloc_etherdev d m =
     \<lparr>tx_space = 0, fid = 0, rc_ier = 0, rc_rxqcr = 0,
      rxctrl = \<lparr>mchash = [0, 0, 0, 0], rxcr1 = 0, rxcr2 = 0\<rparr>,
      txq = [], tx_packets = 0, tx_bytes = 0, rx_packets = 0, rx_bytes = 0,
      rx_over_errors = 0, trace = [], dev_in = d, dev_pos = 0, mem_ok = m, mem_pos = 0\<rparr>"

text \<open>
  What \<open>ks8851_probe\<close> assigns to the fields above: \<open>ks->tx_space = KSZ8851_TX_SPACE\<close>
  and \<open>skb_queue_head_init(&ks->txq)\<close>. The rest of the function (reset line,
  regulators, work queues, SPI messages, EEPROM and MII state, soft reset, chip
  identification, MAC address, interrupt and device registration) touches none of
  these fields and is left out, with its bus traffic.
\<close>

definition ks8851_probe :: "(nat \<Rightarrow> u32) \<Rightarrow> (nat \<Rightarrow> bool) \<Rightarrow> ks8851_net" where
  "ks8851_probe d m =
     (let ks = alloc_etherdev d m;
          ks = ks\<lparr>tx_space := ucast KSZ8851_TX_SPACE\<rparr>
      in ks\<lparr>txq := []\<rparr>)"

subsection \<open>The entry points as one step function\<close>

text \<open>
  The functions through which the kernel enters the modelled part of the driver.
  \<open>Tx_work_run\<close> carries the fuel of the transmit work's loop; \<open>None\<close> is a run that
  has not ended.
\<close>

datatype call =
    Start_xmit sk_buff
  | Tx_work_run nat
  | Rx_work_run
  | Irq
  | Set_rx_mode net_device
  | Rxctrl_work_run
  | Net_open

fun run :: "ks8851_h \<Rightarrow> call \<Rightarrow> ks8851_net \<Rightarrow> ks8851_net option" where
  "run h (Start_xmit skb) ks = Some (snd (ks8851_start_xmit skb ks))"
| "run h (Tx_work_run fuel) ks = map_option snd (ks8851_tx_work fuel h ks)"
| "run h Rx_work_run ks = Some (snd (ks8851_rx_work h ks))"
| "run h Irq ks = Some (snd (ks8851_irq h ks))"
| "run h (Set_rx_mode dev) ks = Some (ks8851_set_rx_mode h dev ks)"
| "run h Rxctrl_work_run ks = Some (ks8851_rxctrl_work ks)"
| "run h Net_open ks = Some (ks8851_net_open h ks)"

subsection \<open>Reading a transmit header back\<close>

text \<open>
  The driver only writes transmit headers; the chip reads them. This is the reading the
  specification's round trip refers to: undo the byte order of the 32-bit transfer, take
  the frame id from the low 16 bits under the id mask and the length from the high 16 bits.
\<close>

definition spec_tx_hdr_decode :: "ks8851_h \<Rightarrow> u32 \<Rightarrow> nat \<times> nat" where
  "spec_tx_hdr_decode h w =
     (let v = htonl w
      in (unat (v AND 0xffff AND TXFR_TXFID_MASK h), unat (drop_bit 16 v)))"

subsection \<open>Concrete values for runs\<close>

text \<open>The values the macros have in the mainline ks8851.h and if.h, and a stand-in for
  \<open>ether_crc\<close>; they serve to run the model on concrete inputs.\<close>

definition h0 :: ks8851_h where
  "h0 = \<lparr>KS_SPIOP_RD = 0x00, KS_SPIOP_WR = 0x40,
         IRQ_LCI = 0x8000, IRQ_LDI = 0x0008, IRQ_RXPSI = 0x0100, IRQ_TXPSI = 0x0200,
         IRQ_TXI = 0x4000, IRQ_RXI = 0x2000, IRQ_SPIBEI = 0x0002, IRQ_RXOI = 0x0800,
         PMECR_WKEVT_MASK = 0x3c, PMECR_WKEVT_LINK = 0x08,
         PMECR_PM_MASK = 0x3, PMECR_PM_NORMAL = 0x0, GRR_QMU = 0x2,
         RXFDPR_RXFPAI = 0x4000, RXQCR_SDA = 0x08, RXQCR_RRXEF = 0x01,
         RXQCR_RXFCTE = 0x20, RXQCR_RXDBCTE = 0x40, RXQCR_RXDTTE = 0x80,
         TXQCR_AETFE = 0x04, TXFDPR_TXFPAI = 0x4000,
         TXFR_TXFID_MASK = 0x3f, TXFR_TXIC = 0x8000,
         TXCR_TXE = 0x1, TXCR_TXPE = 0x4, TXCR_TXCRC = 0x2, TXCR_TXFCE = 0x8,
         RXCR1_RXAE = 0x10, RXCR1_RXINVF = 0x2, RXCR1_RXME = 0x40,
         RXCR1_RXPAFMA = 0x800, RXCR1_RXMAFMA = 0x100, RXCR1_RXUE = 0x20,
         RXCR1_RXBE = 0x80, RXCR1_RXE = 0x1, RXCR1_RXFCE = 0x400,
         RXCR2_SRDBL_FRAME = 0x80,
         IFF_PROMISC = 0x100, IFF_ALLMULTI = 0x200, IFF_MULTICAST = 0x1000,
         ether_crc = (\<lambda>addr. push_bit 26 (ucast (foldl (+) 0 addr)))\<rparr>"

definition skb_of_len :: "u32 \<Rightarrow> sk_buff" where
  "skb_of_len n = \<lparr>skb_len = n, skb_data = (\<lambda>i. 0)\<rparr>"

definition ks_6144 :: ks8851_net where
  "ks_6144 = (ks8851_probe (\<lambda>n. 0) (\<lambda>n. True))\<lparr>tx_space := 6144\<rparr>"


text \<open>A freshly attached device whose reads all answer 0 and whose allocations all
  succeed.\<close>

definition ks_attached :: ks8851_net where
  "ks_attached = ks8851_probe (\<lambda>n. 0) (\<lambda>n. True)"

text \<open>One frame of 60 bytes queued on the attached device; a device with a budget of 100
  whose status register answers transmit-done and whose free-space register answers 6000.\<close>

definition ks_queued :: ks8851_net where
  "ks_queued = snd (ks8851_start_xmit (skb_of_len 60) ks_attached)"

definition ks_txi :: ks8851_net where
  "ks_txi = (ks8851_probe (\<lambda>n. if n = 0 then 0x40 else 6000) (\<lambda>n. True))\<lparr>tx_space := 100\<rparr>"

subsection \<open>Classes of events\<close>

text \<open>The events of a run of the receive pipeline, those of the interrupt handler before
  it acknowledges the status bits, the writes of the receive filter, and the
  acknowledging write itself.\<close>

fun is_rx_event :: "event \<Rightarrow> bool" where
  "is_rx_event (Rdreg8 r) = (r = KS_RXFC)"
| "is_rx_event (Rdfifolen n) = True"
| "is_rx_event (Rdfifo n) = True"
| "is_rx_event (Wrreg16 r v) = (r = KS_RXFDPR \<or> r = KS_RXQCR)"
| "is_rx_event (Netif_rx p n) = True"
| "is_rx_event e = False"


fun is_filter_write :: "event \<Rightarrow> bool" where
  "is_filter_write (Wrreg16 r v) =
     (r = KS_MAHTR0 \<or> r = KS_MAHTR1 \<or> r = KS_MAHTR2 \<or> r = KS_MAHTR3 \<or>
      r = KS_RXCR2 \<or> r = KS_RXCR1)"
| "is_filter_write e = False"


fun is_rx_probe_event :: "event \<Rightarrow> bool" where
  "is_rx_probe_event (Rdreg8 r) = (r = KS_RXFC)"
| "is_rx_probe_event (Rdfifolen n) = True"
| "is_rx_probe_event e = False"

text \<open>\<open>ks'\<close> continues the log of \<open>ks\<close> with events of the class \<open>P\<close> only.\<close>

definition extends_by :: "(event \<Rightarrow> bool) \<Rightarrow> ks8851_net \<Rightarrow> ks8851_net \<Rightarrow> bool" where
  "extends_by P ks ks' = (\<exists>evs. trace ks' = trace ks @ evs \<and> list_all P evs)"

text \<open>\<open>ks'\<close> differs from \<open>ks\<close> at most in what a receive run may touch: the log, the
  positions in the device's answers and in the allocations, and the receive counters.\<close>

definition rx_changes_only :: "ks8851_net \<Rightarrow> ks8851_net \<Rightarrow> bool" where
  "rx_changes_only ks ks' =
     (ks' = ks\<lparr>trace := trace ks', dev_pos := dev_pos ks', mem_pos := mem_pos ks',
               rx_packets := rx_packets ks', rx_bytes := rx_bytes ks'\<rparr>)"


text \<open>
  Devices with one frame in the receive FIFO. \<open>ks_one\<close>: the byte-count register and
  the frame's envelope both say 8 bytes, every allocation succeeds. \<open>ks_nomem\<close>: the
  same device when no allocation succeeds. \<open>ks_short\<close>: the byte-count register says 8
  bytes, the envelope in the FIFO says 100, and the fourth allocation (the second buffer)
  fails.
\<close>

definition dev_one :: "nat \<Rightarrow> u32" where
  "dev_one n = (if n = 0 then 1 else if n = 1 \<or> n = 3 then 0x800
                else if n = 4 then 0x11223344 else 0)"

definition ks_one :: ks8851_net where
  "ks_one = ks8851_probe dev_one (\<lambda>n. True)"

definition ks_nomem :: ks8851_net where
  "ks_nomem = ks8851_probe dev_one (\<lambda>n. False)"

definition ks_short :: ks8851_net where
  "ks_short = ks8851_probe
     (\<lambda>n. if n = 0 then 1 else if n = 1 then 0x800 else if n = 3 then 0x6400 else 0)
     (\<lambda>n. n < 3)"

text \<open>
  A device with two frames in the receive FIFO: the frame count register answers 2, the
  byte-count register answers 100 and then 3000, and the FIFO holds a leading word, the
  envelope of a 100-byte frame, 25 words, the envelope of a 3000-byte frame and 750 words.
\<close>

definition dev_B :: "nat \<Rightarrow> u32" where
  "dev_B n = (if n = 0 then 2 else if n = 1 \<or> n = 4 then 0x6400
              else if n = 2 \<or> n = 30 then 0xB80B else 0)"

definition ks_B :: ks8851_net where
  "ks_B = ks8851_probe dev_B (\<lambda>n. True)"

text \<open>The lengths of the socket buffers handed to the stack, in order.\<close>

fun delivered_lengths :: "event list \<Rightarrow> nat list" where
  "delivered_lengths [] = []"
| "delivered_lengths (Netif_rx p n # es) = n # delivered_lengths es"
| "delivered_lengths (e # es) = delivered_lengths es"






section \<open>Properties\<close>

subsection \<open>Word arithmetic\<close>

lemma minus_4_not_mask: "(- 4 :: u32) = NOT (mask 2)"
  using minus_exp_eq_not_mask [of 2, where ?'a = u32] by simp

lemma and_minus_4: "(y::u32) AND - 4 = push_bit 2 (drop_bit 2 y)"
  unfolding minus_4_not_mask
proof (rule bit_word_eqI)
  fix n :: nat
  assume "n < LENGTH(32)"
  have *: "Suc (Suc (n - 2)) = n" if "2 \<le> n" using that by arith
  show "bit (y AND NOT (mask 2)) n = bit (push_bit 2 (drop_bit 2 y)) n"
    by (cases "2 \<le> n") (auto simp add: bit_simps * not_le)
qed

lemma unat_and_minus_4: "unat ((y::u32) AND - 4) = 4 * (unat y div 4)"
proof -
  have "unat y < 2 ^ 32" using unsigned_less [of y] by simp
  then have "4 * (unat y div 4) < 2 ^ 32" by arith
  then show ?thesis
    by (simp add: and_minus_4 push_bit_eq_mult drop_bit_eq_div unat_word_ariths unat_div)
qed

lemma unat_ALIGN4:
  assumes "unat x \<le> 2 ^ 32 - 4"
  shows "unat (ALIGN x 4) = 4 * ((unat x + 3) div 4)"
proof -
  from assms have "unat (x + 3) = unat x + 3"
    by (simp add: unat_word_ariths)
  then show ?thesis
    by (simp add: ALIGN_def unat_and_minus_4)
qed

lemma unat_calc_txlen:
  assumes "unat L \<le> 2 ^ 32 - 8"
  shows "unat (calc_txlen L) = 4 + 4 * ((unat L + 3) div 4)"
proof -
  from assms have b: "unat (ALIGN L 4) = 4 * ((unat L + 3) div 4)"
    by (simp add: unat_ALIGN4)
  from assms have "4 * ((unat L + 3) div 4) \<le> 2 ^ 32 - 5" by arith
  with b show ?thesis
    by (simp add: calc_txlen_def unat_word_ariths)
qed

lemma unat_ucast_16_32: "unat (ucast (s :: u16) :: u32) = unat s"
proof -
  have "unat s < 2 ^ 16" using unsigned_less [of s] by simp
  then show ?thesis
    by (simp add: unsigned_ucast_eq take_bit_nat_eq_self_iff)
qed

lemma tx_space_sub:
  assumes "\<not> ucast (s :: u16) < (n :: u32)"
  shows "unat (ucast (ucast s - n) :: u16) = unat s - unat n"
proof -
  from assms have le: "n \<le> ucast s" by simp
  then have "unat (ucast s - n :: u32) = unat s - unat n"
    by (simp add: unat_sub unat_ucast_16_32)
  moreover have "unat s < 2 ^ 16" using unsigned_less [of s] by simp
  ultimately show ?thesis
    by (simp add: unsigned_ucast_eq take_bit_nat_eq_self_iff)
qed

lemma ff_mask: "(0xff :: u32) = mask 8" "(0xff00 :: u32) = push_bit 8 (mask 8)"
  by (simp_all add: mask_eq_exp_minus_1)

lemma bit_htonl:
  "bit (htonl x) n \<longleftrightarrow>
     (n < 8 \<and> bit x (n + 24)) \<or> (8 \<le> n \<and> n < 16 \<and> bit x (n + 8)) \<or>
     (16 \<le> n \<and> n < 24 \<and> bit x (n - 8)) \<or> (24 \<le> n \<and> n < 32 \<and> bit x (n - 24))"
proof -
  have a: "bit (push_bit 24 (x AND mask 8)) n \<longleftrightarrow> 24 \<le> n \<and> n < 32 \<and> bit x (n - 24)"
    by (auto simp add: bit_simps)
  have b: "bit (push_bit 8 (x AND push_bit 8 (mask 8))) n \<longleftrightarrow> 16 \<le> n \<and> n < 24 \<and> bit x (n - 8)"
    by (auto simp add: bit_simps)
  have c: "bit (drop_bit 8 x AND push_bit 8 (mask 8)) n \<longleftrightarrow> 8 \<le> n \<and> n < 16 \<and> bit x (n + 8)"
    by (auto simp add: bit_simps add.commute)
  have d: "bit (drop_bit 24 x) n \<longleftrightarrow> n < 8 \<and> bit x (n + 24)"
    by (auto simp add: bit_simps add.commute dest: bit_imp_le_length)
  show ?thesis
    unfolding htonl_def ff_mask bit_or_iff a b c d by blast
qed

lemma htonl_htonl: "htonl (htonl x) = x"
proof (rule bit_word_eqI)
  fix n :: nat
  assume "n < LENGTH(32)"
  then have n: "n < 32" by simp
  consider "n < 8" | "8 \<le> n" "n < 16" | "16 \<le> n" "n < 24" | "24 \<le> n" "n < 32"
    using n by linarith
  then show "bit (htonl (htonl x)) n = bit x n"
    by cases (auto simp add: bit_htonl)
qed

lemma ffff_mask: "(0xffff :: u32) = mask 16"
  by (simp add: mask_eq_exp_minus_1)

lemma low16m:
  "(push_bit 16 (ucast (a :: u16)) OR ucast (b :: u16) :: u32) AND mask 16 AND m = ucast b AND m"
  by (rule bit_word_eqI) (auto simp add: bit_simps dest: bit_imp_le_length)

lemma high16d:
  "drop_bit 16 (push_bit 16 (ucast (a :: u16)) :: u32) OR drop_bit 16 (ucast (b :: u16)) = ucast a"
  by (rule bit_word_eqI) (auto simp add: bit_simps dest: bit_imp_le_length)

lemma unat_ucast_8_32: "unat (ucast (s :: u8) :: u32) = unat s"
proof -
  have "unat s < 2 ^ 8" using unsigned_less [of s] by simp
  then show ?thesis
    by (simp add: unsigned_ucast_eq take_bit_nat_eq_self_iff)
qed

lemma id_bits:
  assumes "(c :: u32) AND m = 0"
  shows "(ucast (ucast ((ucast (X :: u8) AND m) OR c) :: u16) :: u32) AND m = ucast X AND m"
    and "(ucast (ucast (ucast (X :: u8) AND m) :: u16) :: u32) AND m = ucast X AND m"
proof -
  have c: "\<not> (bit c n \<and> bit m n)" for n
    using assms by (metis bit_and_iff bit_0_eq bot_apply bot_bool_def)
  show "(ucast (ucast ((ucast (X :: u8) AND m) OR c) :: u16) :: u32) AND m = ucast X AND m"
    by (rule bit_word_eqI) (use c in \<open>auto simp add: bit_simps dest: bit_imp_le_length\<close>)
  show "(ucast (ucast (ucast (X :: u8) AND m) :: u16) :: u32) AND m = ucast X AND m"
    by (rule bit_word_eqI) (auto simp add: bit_simps dest: bit_imp_le_length)
qed

lemma unat_and_mask_8: "unat ((ucast (X :: u8) :: u32) AND mask k) = unat X mod 2 ^ k"
proof -
  have "(ucast X :: u32) AND mask k = take_bit k (ucast X)"
    by (simp add: take_bit_eq_mask)
  then have "unat ((ucast X :: u32) AND mask k) = take_bit k (unat (ucast X :: u32))"
    by (simp only: unsigned_take_bit_eq)
  then show ?thesis
    by (simp add: unat_ucast_8_32 take_bit_eq_mod)
qed

subsection \<open>State components that the helpers leave alone\<close>

lemma trace_wrreg16 [simp]: "trace (ks8851_wrreg16 r v ks) = trace ks @ [Wrreg16 r (ucast v)]"
  by (simp add: ks8851_wrreg16_def emit_def cpu_to_le16_def)

lemma tx_space_wrreg16 [simp]: "tx_space (ks8851_wrreg16 r v ks) = tx_space ks"
  by (simp add: ks8851_wrreg16_def emit_def)

lemma tx_space_emit [simp]: "tx_space (emit e ks) = tx_space ks"
  by (simp add: emit_def)

lemma tx_space_32bitrdreg16 [simp]: "tx_space (snd (ks8851_32bitrdreg16 r ks)) = tx_space ks"
  by (simp add: ks8851_32bitrdreg16_def bus_read_def emit_def Let_def)

lemma tx_space_set_powermode [simp]: "tx_space (ks8851_set_powermode h m ks) = tx_space ks"
  by (simp add: ks8851_set_powermode_def Let_def split_beta)

lemma tx_space_net_open: "tx_space (ks8851_net_open h ks) = tx_space ks"
  by (simp add: ks8851_net_open_def Let_def ks8851_soft_reset_def)

subsection \<open>Transmit producer\<close>

text \<open>
  C1. For a send request of length \<open>L\<close> the producer works with \<open>needed = calc_txlen L\<close>,
  which is \<open>4 + align(L, 4)\<close> (as a number, for every length whose aligned size fits 32
  bits). If \<open>needed\<close> exceeds the space budget the request is answered busy and the budget
  and the queue stay as they are (the state changes only in its event log); otherwise the
  answer is OK, the budget goes down by exactly \<open>needed\<close> and the frame is appended to the
  tail of the queue.
\<close>

theorem start_xmit_budget:
  "(unat (tx_space ks) < unat (calc_txlen (skb_len skb)) \<longrightarrow>
      ks8851_start_xmit skb ks =
        (NETDEV_TX_BUSY, ks\<lparr>trace := trace ks @ [Netif_stop_queue, Queue_work Tx_work]\<rparr>)) \<and>
   (\<not> unat (tx_space ks) < unat (calc_txlen (skb_len skb)) \<longrightarrow>
      fst (ks8851_start_xmit skb ks) = NETDEV_TX_OK \<and>
      unat (tx_space (snd (ks8851_start_xmit skb ks))) =
        unat (tx_space ks) - unat (calc_txlen (skb_len skb)) \<and>
      txq (snd (ks8851_start_xmit skb ks)) = txq ks @ [skb]) \<and>
   (unat (skb_len skb) \<le> 2 ^ 32 - 8 \<longrightarrow>
      unat (calc_txlen (skb_len skb)) = 4 + 4 * ((unat (skb_len skb) + 3) div 4))"
  by (simp add: ks8851_start_xmit_def Let_def emit_def word_less_nat_alt unat_ucast_16_32
      tx_space_sub unat_calc_txlen)

text \<open>A frame of 6996 bytes needs 7000 and is refused at a budget of 6144, which stays
  6144; a frame of 60 bytes needs 64 and is accepted, leaving 6080.\<close>

theorem start_xmit_budget_witness:
  "ks8851_start_xmit (skb_of_len 6996) ks_6144 =
     (NETDEV_TX_BUSY, ks_6144\<lparr>trace := [Netif_stop_queue, Queue_work Tx_work]\<rparr>) \<and>
   tx_space (snd (ks8851_start_xmit (skb_of_len 6996) ks_6144)) = 6144 \<and>
   fst (ks8851_start_xmit (skb_of_len 60) ks_6144) = NETDEV_TX_OK \<and>
   unat (tx_space (snd (ks8851_start_xmit (skb_of_len 60) ks_6144))) = 6080 \<and>
   txq (snd (ks8851_start_xmit (skb_of_len 60) ks_6144)) = [skb_of_len 60]"
  using start_xmit_budget [of ks_6144 "skb_of_len 6996"]
    start_xmit_budget [of ks_6144 "skb_of_len 60"]
  by (simp add: skb_of_len_def ks_6144_def ks8851_probe_def alloc_etherdev_def
      calc_txlen_def ALIGN_def)

text \<open>
  C9. Every call of the producer submits the transmit work, whatever it answers: the last
  thing it does is \<open>queue_work\<close>, after stopping the queue when it refuses.
\<close>

theorem start_xmit_schedules:
  "trace (snd (ks8851_start_xmit skb ks)) =
     trace ks
       @ (if fst (ks8851_start_xmit skb ks) = NETDEV_TX_BUSY then [Netif_stop_queue] else [])
       @ [Queue_work Tx_work]"
  by (simp add: ks8851_start_xmit_def Let_def emit_def)


subsection \<open>Bus layer\<close>

text \<open>
  C8. For every register address \<open>R\<close> the command word is
  \<open>(byteEnableMask << 2) | (R << 10) | (R >> 6)\<close>, with the mask \<open>1 << (R & 3)\<close> for the
  8-bit accesses and \<open>0xC\<close> or \<open>0x3\<close>, by bit 1 of \<open>R\<close>, for the 16-bit accesses. The
  16-bit word put on the bus is this word with the opcode or-ed in.
\<close>

theorem command_word:
  "ks8851_wrreg8_op R =
     push_bit 2 (push_bit (unat (R AND 3)) 1) OR push_bit 10 R OR drop_bit 6 R \<and>
   ks8851_rdreg8_op R =
     push_bit 2 (push_bit (unat (R AND 3)) 1) OR push_bit 10 R OR drop_bit 6 R \<and>
   ks8851_wrreg16_op R =
     push_bit 2 (if R AND 2 \<noteq> 0 then 0xC else 0x3) OR push_bit 10 R OR drop_bit 6 R \<and>
   ks8851_rdreg16_op R =
     push_bit 2 (if R AND 2 \<noteq> 0 then 0xC else 0x3) OR push_bit 10 R OR drop_bit 6 R \<and>
   ks8851_wrreg8_txb h R v ! 0 = ucast (ks8851_wrreg8_op R OR KS_SPIOP_WR h) \<and>
   ks8851_wrreg16_txb h R v ! 0 = ucast (ks8851_wrreg16_op R OR KS_SPIOP_WR h) \<and>
   ks8851_rdreg_txb h (ks8851_rdreg16_op R) = ucast (ks8851_rdreg16_op R OR KS_SPIOP_RD h)"
  by (simp add: ks8851_wrreg8_op_def ks8851_rdreg8_op_def ks8851_wrreg16_op_def
      ks8851_rdreg16_op_def MK_OP_def BYTE_EN_def ks8851_wrreg8_txb_def ks8851_wrreg16_txb_def
      ks8851_rdreg_txb_def cpu_to_le16_def)

subsection \<open>Attach\<close>

text \<open>
  C10. Probe sets the transmit space budget to 18432, three times 6144 and not 6144;
  opening the device, the other initialisation, leaves the budget as it is.
\<close>

theorem probe_tx_space:
  "tx_space (ks8851_probe d m) = 18432 \<and>
   unat (tx_space (ks8851_probe d m)) = 3 * 6144 \<and>
   tx_space (ks8851_probe d m) \<noteq> 6144 \<and>
   tx_space (ks8851_net_open h ks) = tx_space ks"
  by (simp add: ks8851_probe_def alloc_etherdev_def KSZ8851_TX_SPACE_def Let_def
      tx_space_net_open)

subsection \<open>Transmit header\<close>

text \<open>
  C6. Round trip of the transmit header. When the id mask is \<open>2^k - 1\<close>, the
  interrupt-on-completion flag lies outside it and the length \<open>L\<close> fits the 16-bit length
  field, reading back the header word that the packer builds for frame id \<open>X\<close> and
  length \<open>L\<close> gives \<open>(X mod 2^k, L)\<close>, with or without the flag.
\<close>

theorem tx_hdr_round_trip:
  assumes m: "TXFR_TXFID_MASK h = mask k"
    and ic: "TXFR_TXIC h AND TXFR_TXFID_MASK h = 0"
    and L: "unat L < 2 ^ 16"
  shows "spec_tx_hdr_decode h (tx_hdr_word L (tx_fid h X ic)) = (unat X mod 2 ^ k, unat L)"
proof -
  have len: "unat (ucast (ucast L :: u16) :: u32) = unat L"
    using L by (simp add: unsigned_ucast_eq unsigned_take_bit_eq take_bit_nat_eq_self_iff)
  have "(ucast (ucast (tx_fid h X ic) :: u16) :: u32) AND TXFR_TXFID_MASK h
          = ucast X AND TXFR_TXFID_MASK h"
    using id_bits [OF ic, of X] by (simp add: tx_fid_def Let_def)
  then have "unat ((ucast (ucast (tx_fid h X ic) :: u16) :: u32) AND TXFR_TXFID_MASK h)
          = unat X mod 2 ^ k"
    by (simp add: m unat_and_mask_8)
  then show ?thesis
    by (simp add: spec_tx_hdr_decode_def tx_hdr_word_def htonl_htonl Let_def cpu_to_le16_def
        ffff_mask low16m high16d len)
qed

text \<open>With the 6-bit id mask: frame id 200 and length 1500, flag set, is the word
  \<open>0x0880DC05\<close> in the buffer and reads back as \<open>(8, 1500)\<close>.\<close>

theorem tx_hdr_round_trip_witness:
  "spec_tx_hdr_decode h0 (tx_hdr_word 1500 (tx_fid h0 200 True)) = (8, 1500) \<and>
   tx_hdr_word 1500 (tx_fid h0 200 True) = 0x0880DC05"
  using tx_hdr_round_trip [of h0 6 1500 200 True]
  by (simp add: h0_def mask_eq_exp_minus_1 tx_hdr_word_def tx_fid_def htonl_def cpu_to_le16_def)

subsection \<open>Receive filter\<close>

lemma ucast_16_32_16 [simp]: "(ucast (ucast (x :: u16) :: u32) :: u16) = x"
  by (rule bit_word_eqI) (auto simp add: bit_simps dest: bit_imp_le_length)


subsection \<open>The space budget across the entry points\<close>

lemma tx_space_kmalloc [simp]: "tx_space (snd (kmalloc ks)) = tx_space ks"
  by (simp add: kmalloc_def)

lemma tx_space_rdreg8 [simp]: "tx_space (snd (ks8851_rdreg8 r ks)) = tx_space ks"
  by (simp add: ks8851_rdreg8_def bus_read_def emit_def Let_def)

lemma tx_space_rdfifo [simp]: "tx_space (snd (ks8851_rdfifo n ks)) = tx_space ks"
  by (simp add: ks8851_rdfifo_def emit_def Let_def)

lemma tx_space_rdfifolen [simp]: "tx_space (snd (ks8851_rdfifolen fc ks)) = tx_space ks"
  by (simp add: ks8851_rdfifolen_def emit_def Let_def split_beta)

lemma tx_space_rx_deliver:
  "rx_deliver buf i a l ks = Some ks' \<Longrightarrow> tx_space ks' = tx_space ks"
  by (auto simp add: rx_deliver_def Let_def split_beta emit_def kmalloc_def split: if_splits)

lemma tx_space_rx_short_buffer [simp]:
  "tx_space (snd (rx_short_buffer sz buf i l a t ks)) = tx_space ks"
  by (auto simp add: rx_short_buffer_def Let_def split_beta
      split: option.splits dest!: tx_space_rx_deliver)

lemma tx_space_rx_loop [simp]:
  "tx_space (snd (ks8851_rx_loop sz buf i rxfc t ks)) = tx_space ks"
proof (induction sz buf i rxfc t ks rule: ks8851_rx_loop.induct)
  case (1 rxfifosize buf32 index32 rxfc totallen ks)
  show ?case
    using 1
    by (subst ks8851_rx_loop.simps)
       (auto simp add: Let_def split_beta split: option.splits dest: tx_space_rx_deliver)
qed

lemma tx_space_rx_pkts3 [simp]: "tx_space (snd (ks8851_rx_pkts3 h ks)) = tx_space ks"
  by (simp add: ks8851_rx_pkts3_def Let_def split_beta split: rx_exit.splits prod.splits)


lemma tx_space_wrpkts3_loop [simp]:
  "tx_space (snd (snd (snd (ks8851_wrpkts3_loop h lst len buf ks)))) = tx_space ks"
proof (induction h lst len buf ks rule: ks8851_wrpkts3_loop.induct)
  case (1 h lst len buf ks)
  show ?case
    using 1
    by (subst ks8851_wrpkts3_loop.simps) (auto simp add: Let_def split: list.splits)
qed

lemma tx_space_wrpkts3 [simp]: "tx_space (snd (ks8851_wrpkts3 h ks)) = tx_space ks"
  by (simp add: ks8851_wrpkts3_def Let_def split_beta)

lemma tx_space_tx_work_loop:
  "ks8851_tx_work_loop fuel h ks = Some (f, ks') \<Longrightarrow> tx_space ks' = tx_space ks"
proof (induction fuel arbitrary: ks)
  case 0
  then show ?case
    by (simp add: ks8851_tx_work_loop.simps split: if_splits)
next
  case (Suc n)
  obtain e ks1 where w: "ks8851_wrpkts3 h ks = (e, ks1)"
    by (cases "ks8851_wrpkts3 h ks")
  then have s: "tx_space ks1 = tx_space ks"
    using tx_space_wrpkts3 [of h ks] by simp
  show ?case
  proof (cases "txq ks = []")
    case True
    with Suc.prems show ?thesis by (simp add: ks8851_tx_work_loop.simps)
  next
    case False
    show ?thesis
    proof (cases "e = Tx_fault")
      case True
      with Suc.prems False w s show ?thesis
        by (simp add: ks8851_tx_work_loop.simps [of "Suc n"])
    next
      case False
      with Suc.prems \<open>txq ks \<noteq> []\<close> w
      have "ks8851_tx_work_loop n h ks1 = Some (f, ks')"
        by (cases e) (simp_all add: ks8851_tx_work_loop.simps [of "Suc n"])
      with Suc.IH s show ?thesis by simp
    qed
  qed
qed

lemma tx_space_tx_work:
  "ks8851_tx_work fuel h ks = Some (f, ks') \<Longrightarrow> tx_space ks' = tx_space ks"
  by (auto simp add: ks8851_tx_work_def Let_def emit_def ks8851_wrreg16_def
      split: if_splits option.splits bool.splits dest!: tx_space_tx_work_loop)


lemma irq_status_eq:
  "fst (irq_status h ks) = ucast (htons (ucast (dev_in ks (dev_pos ks))))"
  by (simp add: irq_status_def Let_def split_beta ks8851_32bitrdreg16_def bus_read_def emit_def)

lemma tx_space_irq_ldi [simp]: "tx_space (irq_ldi h ks) = tx_space ks"
  by (simp add: irq_ldi_def Let_def split_beta)

lemma dev_irq_ldi [simp]:
  "dev_in (irq_ldi h ks) = dev_in ks" "dev_pos (irq_ldi h ks) = Suc (dev_pos ks)"
  by (simp_all add: irq_ldi_def Let_def split_beta ks8851_32bitrdreg16_def bus_read_def
      emit_def ks8851_wrreg16_def)

lemma tx_space_irq_txi:
  "tx_space (irq_txi ks) = ucast (fst (ks8851_rdreg16 KS_TXMIR ks))"
  "tx_space (irq_txi ks) = ucast (dev_in ks (dev_pos ks))"
  by (simp_all add: irq_txi_def Let_def split_beta ks8851_rdreg16_def bus_read_def emit_def)

lemma tx_space_irq_status:
  "tx_space (snd (irq_status h ks)) =
     (if fst (irq_status h ks) AND IRQ_TXI h \<noteq> 0
      then ucast (dev_in ks (dev_pos ks +
                    (if fst (irq_status h ks) AND IRQ_LDI h \<noteq> 0 then 2 else 1)))
      else tx_space ks)"
  by (simp add: irq_status_def Let_def split_beta tx_space_irq_txi(2)
      ks8851_32bitrdreg16_def bus_read_def emit_def)

lemma tx_space_irq:
  "tx_space (snd (ks8851_irq h ks)) = tx_space (snd (irq_status h ks))"
  by (simp add: ks8851_irq_def Let_def split_beta emit_def irq_rxpsi_def)

lemma tx_space_rx_work [simp]: "tx_space (snd (ks8851_rx_work h ks)) = tx_space ks"
  by (simp add: ks8851_rx_work_def Let_def split_beta)

lemma tx_space_set_rx_mode [simp]: "tx_space (ks8851_set_rx_mode h dev ks) = tx_space ks"
  by (simp add: ks8851_set_rx_mode_def Let_def)

lemma tx_space_rxctrl_work [simp]: "tx_space (ks8851_rxctrl_work ks) = tx_space ks"
  by (simp add: ks8851_rxctrl_work_def)

lemma tx_space_start_xmit_le:
  "unat (tx_space (snd (ks8851_start_xmit skb ks))) \<le> unat (tx_space ks)"
  by (simp add: ks8851_start_xmit_def Let_def tx_space_sub)

lemma run_raises_tx_space:
  assumes "run h c ks = Some ks'" and "unat (tx_space ks) < unat (tx_space ks')"
  shows "c = Irq \<and> fst (irq_status h ks) AND IRQ_TXI h \<noteq> 0"
proof (cases c)
  case (Start_xmit skb)
  with assms tx_space_start_xmit_le [of skb ks] show ?thesis by auto
next
  case (Tx_work_run fuel)
  with assms show ?thesis by (auto dest: tx_space_tx_work)
next
  case Irq
  with assms show ?thesis
    by (auto simp add: tx_space_irq tx_space_irq_status split: if_splits)
next
  case Net_open
  with assms show ?thesis by (auto simp add: tx_space_net_open)
qed (use assms in auto)


lemma wrpkts3_loop_txq_le:
  "length (txq (snd (snd (snd (ks8851_wrpkts3_loop h lst len buf ks))))) \<le> length (txq ks)"
proof (induction h lst len buf ks rule: ks8851_wrpkts3_loop.induct)
  case (1 h lst len buf ks)
  show ?case
    using 1
    by (subst ks8851_wrpkts3_loop.simps)
       (auto simp add: Let_def split: list.splits intro!: le_SucI)
qed

lemma wrpkts3_loop_mem_ok [simp]:
  "mem_ok (snd (snd (snd (ks8851_wrpkts3_loop h lst len buf ks)))) = mem_ok ks"
proof (induction h lst len buf ks rule: ks8851_wrpkts3_loop.induct)
  case (1 h lst len buf ks)
  show ?case
    using 1
    by (subst ks8851_wrpkts3_loop.simps) (auto simp add: Let_def split: list.splits)
qed

lemma wrpkts3_loop_first:
  assumes "txq ks \<noteq> []"
  shows "length (txq (snd (snd (snd (ks8851_wrpkts3_loop h False 0 [] ks))))) < length (txq ks)"
proof -
  from assms obtain txb rest where q: "txq ks = txb # rest"
    by (cases "txq ks") auto
  let ?ks1 = "ks\<lparr>txq := rest, fid := fid ks + 1,
                  tx_bytes := tx_bytes ks + ucast (skb_len txb),
                  tx_packets := tx_packets ks + 1\<rparr>"
  have "length (txq (snd (snd (snd (ks8851_wrpkts3_loop h l n b ?ks1))))) \<le> length rest"
    for l n b
    using wrpkts3_loop_txq_le [of h l n b ?ks1] by simp
  then show ?thesis
    using q
    by (subst ks8851_wrpkts3_loop.simps) (auto simp add: Let_def less_Suc_eq_le)
qed

lemma wrpkts3_shrinks:
  assumes "mem_ok ks (mem_pos ks)" and "txq ks \<noteq> []"
  shows "length (txq (snd (ks8851_wrpkts3 h ks))) < length (txq ks)"
proof -
  let ?k = "ks\<lparr>mem_pos := mem_pos ks + 1\<rparr>"
  have "txq ?k \<noteq> []" using assms by simp
  from wrpkts3_loop_first [OF this, of h] assms show ?thesis
    by (simp add: ks8851_wrpkts3_def Let_def split_beta kmalloc_def emit_def)
qed

lemma wrpkts3_mem_ok [simp]: "mem_ok (snd (ks8851_wrpkts3 h ks)) = mem_ok ks"
  by (simp add: ks8851_wrpkts3_def Let_def split_beta kmalloc_def emit_def)

text \<open>The transmit work returns when allocations succeed: each batch then takes at least
  one frame off the queue, so fuel for one batch per queued frame is enough.\<close>

lemma tx_work_loop_returns:
  "\<forall>n. mem_ok ks n \<Longrightarrow> length (txq ks) \<le> fuel \<Longrightarrow>
   \<exists>r. ks8851_tx_work_loop fuel h ks = Some r"
proof (induction fuel arbitrary: ks)
  case 0
  then show ?case by (auto simp add: ks8851_tx_work_loop.simps)
next
  case (Suc n)
  show ?case
  proof (cases "txq ks = []")
    case True
    then show ?thesis by (auto simp add: ks8851_tx_work_loop.simps)
  next
    case False
    obtain e ks1 where w: "ks8851_wrpkts3 h ks = (e, ks1)"
      by (cases "ks8851_wrpkts3 h ks")
    from Suc.prems False wrpkts3_shrinks [of ks h] w have "length (txq ks1) \<le> n"
      by simp
    moreover from Suc.prems w wrpkts3_mem_ok [of h ks] have "\<forall>n. mem_ok ks1 n"
      by simp
    ultimately obtain r where "ks8851_tx_work_loop n h ks1 = Some r"
      using Suc.IH by blast
    with False w show ?thesis
      by (cases e) (auto simp add: ks8851_tx_work_loop.simps [of "Suc n"])
  qed
qed

lemma tx_work_returns:
  assumes "\<forall>n. mem_ok ks n" and "length (txq ks) \<le> fuel"
  shows "\<exists>r. ks8851_tx_work fuel h ks = Some r"
proof -
  let ?k = "ks8851_wrreg16 KS_RXQCR (ucast (rc_rxqcr ks) OR RXQCR_SDA h)
              (ks8851_wrreg16 KS_TXQCR (TXQCR_AETFE h) (emit Mutex_lock ks))"
  have "\<forall>n. mem_ok ?k n" "length (txq ?k) \<le> fuel"
    using assms by (simp_all add: ks8851_wrreg16_def emit_def)
  then obtain r where "ks8851_tx_work_loop fuel h ?k = Some r"
    using tx_work_loop_returns by blast
  then show ?thesis
    by (cases r) (auto simp add: ks8851_tx_work_def Let_def ks8851_wrreg16_def emit_def
        split: bool.splits)
qed

text \<open>
  C2. The transmit work and its batch packer never change the space budget, whatever
  they send and however they end. Of all entry points, only the interrupt handler can
  raise the budget, and only in its transmit-done branch, where the budget becomes the
  value just read from \<open>KS_TXMIR\<close>; without transmit-done the handler leaves it alone.
\<close>

theorem tx_space_never_raised_by_consumer:
  "(ks8851_tx_work fuel h ks = Some (f, ks') \<longrightarrow> tx_space ks' = tx_space ks) \<and>
   tx_space (snd (ks8851_wrpkts3 h ks)) = tx_space ks \<and>
   (run h c ks = Some ks'' \<and> unat (tx_space ks) < unat (tx_space ks'') \<longrightarrow>
      c = Irq \<and> fst (irq_status h ks) AND IRQ_TXI h \<noteq> 0) \<and>
   tx_space (irq_txi ks) = ucast (fst (ks8851_rdreg16 KS_TXMIR ks)) \<and>
   (fst (irq_status h ks) AND IRQ_TXI h \<noteq> 0 \<longrightarrow>
      tx_space (snd (ks8851_irq h ks)) =
        ucast (dev_in ks (dev_pos ks +
                 (if fst (irq_status h ks) AND IRQ_LDI h \<noteq> 0 then 2 else 1)))) \<and>
   (fst (irq_status h ks) AND IRQ_TXI h = 0 \<longrightarrow>
      tx_space (snd (ks8851_irq h ks)) = tx_space ks)"
  using run_raises_tx_space [of h c ks ks'']
  by (simp add: tx_space_tx_work tx_space_irq tx_space_irq_status tx_space_irq_txi(1))


text \<open>The transmit work on one queued frame returns and leaves the budget at 18368; an
  interrupt with transmit-done raises a budget of 100 to the 6000 the device reports.\<close>

theorem tx_space_never_raised_by_consumer_witness:
  "(\<exists>r. ks8851_tx_work 1 h0 ks_queued = Some r \<and> tx_space (snd r) = 18368) \<and>
   tx_space ks_queued = 18368 \<and>
   fst (irq_status h0 ks_txi) = 0x4000 \<and>
   tx_space ks_txi = 100 \<and>
   run h0 Irq ks_txi = Some (snd (ks8851_irq h0 ks_txi)) \<and>
   tx_space (snd (ks8851_irq h0 ks_txi)) = 6000"
proof -
  have q: "tx_space ks_queued = 18368" "length (txq ks_queued) \<le> 1" "\<forall>n. mem_ok ks_queued n"
    by (simp_all add: ks_queued_def ks8851_start_xmit_def Let_def emit_def skb_of_len_def
        ks_attached_def ks8851_probe_def alloc_etherdev_def KSZ8851_TX_SPACE_def
        calc_txlen_def ALIGN_def)
  from tx_work_returns [OF q(3) q(2), of h0]
  obtain r where r: "ks8851_tx_work 1 h0 ks_queued = Some (fst r, snd r)"
    by auto
  from tx_space_never_raised_by_consumer [of 1 h0 ks_queued "fst r" "snd r"] r q(1)
  have a: "tx_space (snd r) = 18368" by simp
  have st: "fst (irq_status h0 ks_txi) = 0x4000"
    by (simp add: irq_status_eq ks_txi_def ks8851_probe_def alloc_etherdev_def Let_def htons_def)
  have t: "tx_space ks_txi = 100" "dev_in ks_txi (Suc (dev_pos ks_txi)) = 6000"
    by (simp_all add: ks_txi_def ks8851_probe_def alloc_etherdev_def Let_def)
  have i: "IRQ_TXI h0 = 0x4000" "IRQ_LDI h0 = 0x8"
    by (simp_all add: h0_def)
  from tx_space_never_raised_by_consumer [of 0 h0 ks_txi False ks_txi Irq "snd (ks8851_irq h0 ks_txi)"]
  have b: "tx_space (snd (ks8851_irq h0 ks_txi)) = 6000"
    by (simp add: st t i)
  from r a q(1) st t(1) b show ?thesis
    by auto
qed

subsection \<open>The event log of the receive pipeline\<close>

lemma extends_by_refl [simp]: "extends_by P ks ks"
  by (simp add: extends_by_def)

lemma extends_by_same_trace: "trace ks' = trace ks \<Longrightarrow> extends_by P ks ks'"
  by (simp add: extends_by_def)

lemma extends_by_trans:
  "extends_by P ks ks1 \<Longrightarrow> extends_by P ks1 ks2 \<Longrightarrow> extends_by P ks ks2"
  by (auto simp add: extends_by_def)

lemma extends_by_emit: "P e \<Longrightarrow> extends_by P ks ks1 \<Longrightarrow> extends_by P ks (emit e ks1)"
  by (auto simp add: extends_by_def emit_def)

lemma extends_by_wrreg16:
  "P (Wrreg16 r (ucast v)) \<Longrightarrow> extends_by P ks ks1 \<Longrightarrow> extends_by P ks (ks8851_wrreg16 r v ks1)"
  by (auto simp add: extends_by_def)

lemma trace_kmalloc [simp]: "trace (snd (kmalloc ks)) = trace ks"
  by (simp add: kmalloc_def)



lemma rx_ext_rdfifo: "extends_by is_rx_event ks (snd (ks8851_rdfifo n ks))"
  by (simp add: extends_by_def ks8851_rdfifo_def emit_def Let_def)

lemma rx_ext_deliver:
  "rx_deliver buf i a l ks = Some ks' \<Longrightarrow> extends_by is_rx_event ks ks'"
  by (auto simp add: extends_by_def rx_deliver_def Let_def split_beta emit_def kmalloc_def
      split: if_splits)

lemma rx_ext_short_buffer:
  "extends_by is_rx_event ks (snd (rx_short_buffer sz buf i l a t ks))"
proof -
  have f: "extends_by is_rx_event ks (snd (ks8851_rdfifo n ks))" for n
    by (rule rx_ext_rdfifo)
  show ?thesis
    by (auto simp add: rx_short_buffer_def Let_def split_beta f
        split: option.splits intro: extends_by_trans [OF f] dest!: rx_ext_deliver)
qed

lemma rx_ext_loop:
  "extends_by is_rx_event ks (snd (ks8851_rx_loop sz buf i rxfc t ks))"
proof (induction sz buf i rxfc t ks rule: ks8851_rx_loop.induct)
  case (1 rxfifosize buf32 index32 rxfc totallen ks)
  have k: "extends_by is_rx_event ks (snd (kmalloc ks))"
    by (simp add: extends_by_same_trace)
  have s: "extends_by is_rx_event ks (snd (rx_short_buffer sz buf i l a t (snd (kmalloc ks))))"
    for sz buf i l a t
    by (rule extends_by_trans [OF k rx_ext_short_buffer])
  note d = extends_by_trans [OF rx_ext_deliver]
  show ?case
    using 1
    by (subst ks8851_rx_loop.simps)
       (auto simp add: Let_def split_beta k s split: option.splits intro: d)
qed


lemma rx_pkts3_unfold:
  assumes a: "ks8851_rdreg8 KS_RXFC ks = (rxfc, k1)"
    and b: "ks8851_rdfifolen (ucast rxfc) k1 = (sz, k2)"
    and c: "kmalloc k2 = (ok, k3)"
    and d: "ks8851_rdfifo sz
              (ks8851_wrreg16 KS_RXQCR (ucast (rc_rxqcr k3) OR RXQCR_SDA h)
                 (ks8851_wrreg16 KS_RXFDPR (RXFDPR_RXFPAI h) k3)) = (buf, k6)"
    and e: "ks8851_rx_loop sz buf (Suc 0) rxfc 0 k6 = (ex, k7)"
  shows "ks8851_rx_pkts3 h ks =
     (if rxfc = 0 then (Rx_nop, k1)
      else if sint sz \<le> 0 then (Rx_nomem_len, k2)
      else if \<not> ok then (Rx_nomem_buf, k3)
      else if ex = Rx_done
        then (Rx_done, ks8851_wrreg16 KS_RXQCR (ucast (rc_rxqcr k7) OR RXQCR_RRXEF h) k7)
        else (ex, k7))"
proof -
  have r: "rc_rxqcr (ks8851_wrreg16 KS_RXFDPR v k3) = rc_rxqcr k3" for v
    by (simp add: ks8851_wrreg16_def emit_def)
  show ?thesis
    by (cases ex) (simp_all add: ks8851_rx_pkts3_def Let_def a b c d e r)
qed


subsection \<open>Interrupt handler\<close>







subsection \<open>What a receive run leaves alone, and how it ends\<close>

lemma rx_changes_only_refl [simp]: "rx_changes_only ks ks"
  by (simp add: rx_changes_only_def)

lemma rx_changes_only_trans:
  "rx_changes_only ks ks1 \<Longrightarrow> rx_changes_only ks1 ks2 \<Longrightarrow> rx_changes_only ks ks2"
  unfolding rx_changes_only_def
  by (cases ks, cases ks1, cases ks2) simp

lemma rx_changes_only_emit: "rx_changes_only ks (emit e ks)"
  by (simp add: rx_changes_only_def emit_def)

lemma rx_changes_only_wrreg16: "rx_changes_only ks (ks8851_wrreg16 r v ks)"
  by (simp add: rx_changes_only_def ks8851_wrreg16_def emit_def)

lemma rx_changes_only_kmalloc: "rx_changes_only ks (snd (kmalloc ks))"
  by (simp add: rx_changes_only_def kmalloc_def)

lemma rx_changes_only_rdreg8: "rx_changes_only ks (snd (ks8851_rdreg8 r ks))"
  by (simp add: rx_changes_only_def ks8851_rdreg8_def bus_read_def emit_def Let_def)

lemma rx_changes_only_rdfifo: "rx_changes_only ks (snd (ks8851_rdfifo n ks))"
  by (simp add: rx_changes_only_def ks8851_rdfifo_def emit_def Let_def)

lemma rx_changes_only_rdfifolen: "rx_changes_only ks (snd (ks8851_rdfifolen fc ks))"
  by (simp add: rx_changes_only_def ks8851_rdfifolen_def kmalloc_def emit_def Let_def split_beta)

lemma rx_changes_only_deliver:
  "rx_deliver buf i a l ks = Some ks' \<Longrightarrow> rx_changes_only ks ks'"
  by (auto simp add: rx_changes_only_def rx_deliver_def Let_def split_beta emit_def kmalloc_def
      split: if_splits)

lemma rx_changes_only_short_buffer:
  "rx_changes_only ks (snd (rx_short_buffer sz buf i l a t ks))"
proof -
  note f = rx_changes_only_rdfifo
  show ?thesis
    by (auto simp add: rx_short_buffer_def Let_def split_beta f
        split: option.splits intro: rx_changes_only_trans [OF f] dest!: rx_changes_only_deliver)
qed

lemma rx_changes_only_loop:
  "rx_changes_only ks (snd (ks8851_rx_loop sz buf i rxfc t ks))"
proof (induction sz buf i rxfc t ks rule: ks8851_rx_loop.induct)
  case (1 rxfifosize buf32 index32 rxfc totallen ks)
  note k = rx_changes_only_kmalloc [of ks]
  have s: "rx_changes_only ks (snd (rx_short_buffer sz buf i l a t (snd (kmalloc ks))))"
    for sz buf i l a t
    by (rule rx_changes_only_trans [OF k rx_changes_only_short_buffer])
  note d = rx_changes_only_trans [OF rx_changes_only_deliver]
  show ?case
    using 1
    by (subst ks8851_rx_loop.simps)
       (auto simp add: Let_def split_beta k s split: option.splits intro: d)
qed



lemma rx_changes_only_fields:
  assumes "rx_changes_only ks ks'"
  shows "txq ks' = txq ks" "tx_space ks' = tx_space ks" "rxctrl ks' = rxctrl ks"
    "rc_rxqcr ks' = rc_rxqcr ks" "mem_ok ks' = mem_ok ks" "dev_in ks' = dev_in ks"
    "fid ks' = fid ks"
  using assms unfolding rx_changes_only_def
  by (cases ks; cases ks'; simp)+


lemma unat_and_fff: "unat ((x :: u32) AND 0xfff) \<le> 4095"
proof -
  have "x AND 0xfff \<le> 0xfff" by (rule word_and_le1)
  then show ?thesis by (simp add: word_le_nat_alt)
qed

lemma unat_frame_size:
  "unat (ucast (ALIGN ((x :: u32) AND 0xfff) 4 + 4) :: u16) \<le> 4100"
proof -
  let ?y = "x AND 0xfff"
  have y: "unat ?y \<le> 4095" by (rule unat_and_fff)
  then have a: "unat (ALIGN ?y 4) = 4 * ((unat ?y + 3) div 4)"
    by (intro unat_ALIGN4) simp
  with y have "unat (ALIGN ?y 4) \<le> 4096" by simp
  then have "unat (ALIGN ?y 4 + 4) \<le> 4100"
    by (simp add: unat_word_ariths)
  then show ?thesis
    by (simp add: unsigned_ucast_eq unsigned_take_bit_eq take_bit_eq_mod)
qed

lemma rdfifolen_loop_bound:
  "unat t \<le> 16387 \<Longrightarrow> unat (ks8851_rdfifolen_loop xs t) \<le> 16387"
proof (induction xs arbitrary: t)
  case Nil
  then show ?case by simp
next
  case (Cons rx rxd)
  show ?case
  proof (cases "ucast t \<ge> MAX_RXFIFO_SIZE")
    case True
    with Cons.prems show ?thesis by simp
  next
    case False
    then have t: "unat t < 12288"
      by (simp add: MAX_RXFIFO_SIZE_def word_le_nat_alt unat_ucast_16_32)
    let ?d = "ucast (ALIGN (ucast (htons (ucast rx)) AND 0xfff) 4 + 4) :: u16"
    have "unat ?d \<le> 4100" by (rule unat_frame_size)
    with t have "unat (t + ?d) \<le> 16387"
      by (simp add: unat_word_ariths)
    from Cons.IH [OF this] False show ?thesis by simp
  qed
qed

lemma rdfifolen_loop_mono: "unat t \<le> 16387 \<Longrightarrow> unat t \<le> unat (ks8851_rdfifolen_loop xs t)"
proof (induction xs arbitrary: t)
  case Nil
  then show ?case by simp
next
  case (Cons rx rxd)
  show ?case
  proof (cases "ucast t \<ge> MAX_RXFIFO_SIZE")
    case True
    then show ?thesis by simp
  next
    case False
    then have t: "unat t < 12288"
      by (simp add: MAX_RXFIFO_SIZE_def word_le_nat_alt unat_ucast_16_32)
    let ?d = "ucast (ALIGN (ucast (htons (ucast rx)) AND 0xfff) 4 + 4) :: u16"
    have d: "unat ?d \<le> 4100" by (rule unat_frame_size)
    with t have "unat (t + ?d) \<le> 16387" "unat t \<le> unat (t + ?d)"
      by (simp_all add: unat_word_ariths)
    with Cons.IH [of "t + ?d"] False show ?thesis by simp
  qed
qed

lemma rdfifolen_value:
  assumes "mem_ok ks (mem_pos ks)" and "mem_ok ks (Suc (mem_pos ks))"
  shows "4 \<le> unat (fst (ks8851_rdfifolen fc ks)) \<and> unat (fst (ks8851_rdfifolen fc ks)) \<le> 12288"
proof -
  let ?l = "ks8851_rdfifolen_loop (map (dev_in ks) [dev_pos ks..<dev_pos ks + unat fc]) 0"
  have "unat ?l \<le> 16387" by (rule rdfifolen_loop_bound) simp
  then have l: "unat (?l + 4) = unat ?l + 4"
    by (simp add: unat_word_ariths)
  have v: "fst (ks8851_rdfifolen fc ks) =
      ucast (if ucast (?l + 4) \<ge> MAX_RXFIFO_SIZE then ucast MAX_RXFIFO_SIZE else ?l + 4)"
    using assms by (simp add: ks8851_rdfifolen_def kmalloc_def emit_def Let_def)
  show ?thesis
    unfolding v using l
    by (auto simp add: MAX_RXFIFO_SIZE_def word_le_nat_alt unat_ucast_16_32)
qed

lemma sint_small:
  assumes "unat (x :: u32) \<le> 12288"
  shows "sint x = uint x"
proof -
  have "uint x \<le> 12288" unfolding uint_nat using assms by linarith
  then have hi: "uint x < 2 ^ 31"
    by (rule le_less_trans) simp
  have lo: "- (2 ^ 31) \<le> uint x"
    by (rule order_trans [of _ 0]) simp_all
  have "signed_take_bit 31 (uint x) = uint x"
    by (rule signed_take_bit_int_eq_self [OF lo hi])
  then show ?thesis
    by (simp add: sint_uint)
qed

lemma sint_ENOMEM: "sint (- ENOMEM) \<le> 0"
  by (simp add: ENOMEM_def)

lemma sint_MAX: "sint MAX_RXFIFO_SIZE = 12288"
  by (simp add: MAX_RXFIFO_SIZE_def)

lemma rdfifolen_positive:
  assumes "mem_ok ks (mem_pos ks)" and "mem_ok ks (Suc (mem_pos ks))"
  shows "\<not> sint (fst (ks8851_rdfifolen fc ks)) \<le> 0"
proof -
  note v = rdfifolen_value [OF assms, of fc]
  then have "0 < uint (fst (ks8851_rdfifolen fc ks))"
    unfolding uint_nat by linarith
  with v show ?thesis by (simp add: sint_small)
qed

lemma rdfifolen_mem_pos:
  "mem_ok ks (mem_pos ks) \<Longrightarrow> mem_pos (snd (ks8851_rdfifolen fc ks)) = mem_pos ks + 2"
  by (simp add: ks8851_rdfifolen_def kmalloc_def emit_def Let_def)

lemma rx_short_buffer_exit:
  "P Rx_done \<Longrightarrow> P Rx_fault \<Longrightarrow> P (fst (rx_short_buffer sz buf i l a t ks))"
  by (simp add: rx_short_buffer_def Let_def split_beta split: option.splits)

lemma rx_loop_exit:
  assumes "P Rx_done" and "P Rx_fault" and "P Rx_nomem_buf1"
  shows "P (fst (ks8851_rx_loop sz buf i rxfc t ks))"
proof (induction sz buf i rxfc t ks rule: ks8851_rx_loop.induct)
  case (1 rxfifosize buf32 index32 rxfc totallen ks)
  note s = rx_short_buffer_exit [of P, OF assms(1,2)]
  show ?case
    using 1 assms
    by (subst ks8851_rx_loop.simps)
       (auto simp add: Let_def split_beta s split: option.splits)
qed

lemma rx_loop_exit_mem_ok:
  assumes "P Rx_done" and "P Rx_fault"
  shows "\<forall>n. mem_ok ks n \<Longrightarrow> P (fst (ks8851_rx_loop sz buf i rxfc t ks))"
proof (induction sz buf i rxfc t ks rule: ks8851_rx_loop.induct)
  case (1 rxfifosize buf32 index32 rxfc totallen ks)
  have m: "rx_deliver b j a l ks = Some ks1 \<Longrightarrow> mem_ok ks1 n" for b j a l ks1 n
    using rx_changes_only_fields(5) [OF rx_changes_only_deliver, of b j a l ks ks1] "1.prems"
    by simp
  have k: "fst (kmalloc ks)"
    using "1.prems" by (simp add: kmalloc_def)
  note s = rx_short_buffer_exit [of P, OF assms]
  show ?case
    using "1.IH" assms
    by (subst ks8851_rx_loop.simps)
       (auto simp add: Let_def split_beta s k m split: option.splits)
qed

subsection \<open>The end of a receive run\<close>

lemma probe_ext_rdreg8: "extends_by is_rx_probe_event ks (snd (ks8851_rdreg8 KS_RXFC ks))"
  by (simp add: extends_by_def ks8851_rdreg8_def bus_read_def emit_def Let_def)

lemma probe_ext_rdfifolen: "extends_by is_rx_probe_event ks (snd (ks8851_rdfifolen fc ks))"
  by (simp add: extends_by_def ks8851_rdfifolen_def kmalloc_def emit_def Let_def split_beta)

lemma probe_event_is_rx_event: "is_rx_probe_event e \<Longrightarrow> is_rx_event e"
  by (cases e) auto

lemma extends_by_mono:
  assumes "\<And>e. P e \<Longrightarrow> Q e" and "extends_by P ks ks'"
  shows "extends_by Q ks ks'"
proof -
  from assms(2) obtain evs where "trace ks' = trace ks @ evs" "list_all P evs"
    by (auto simp add: extends_by_def)
  moreover from this(2) assms(1) have "list_all Q evs"
    by (induction evs) auto
  ultimately show ?thesis
    by (auto simp add: extends_by_def)
qed

text \<open>
  C3, as the code has it. A receive run that finds frames, gets its size estimate and
  its buffer and ends its decode loop by running out of frames or by a \<open>break\<close>,
  ends by writing \<open>KS_RXQCR\<close> with the release-frame bit, whatever number of frames
  it has decoded; that is every run in which all allocations succeed and no access leaves
  a buffer. A run whose size probe or whose buffer allocation fails returns before any
  register write, so without that acknowledgment. No run touches the transmit queue, the
  space budget or the receive filter settings.
\<close>

theorem rx_pkts3_acknowledges:
  "rx_changes_only ks (snd (ks8851_rx_pkts3 h ks)) \<and>
   (fst (ks8851_rx_pkts3 h ks) = Rx_done \<longrightarrow>
      (\<exists>evs. trace (snd (ks8851_rx_pkts3 h ks)) =
               trace ks @ evs
                 @ [Wrreg16 KS_RXQCR (cpu_to_le16 (ucast (rc_rxqcr ks) OR RXQCR_RRXEF h))] \<and>
             list_all is_rx_event evs)) \<and>
   (fst (ks8851_rx_pkts3 h ks) = Rx_nomem_len \<or> fst (ks8851_rx_pkts3 h ks) = Rx_nomem_buf \<longrightarrow>
      extends_by is_rx_probe_event ks (snd (ks8851_rx_pkts3 h ks))) \<and>
   (fst (ks8851_rdreg8 KS_RXFC ks) \<noteq> 0 \<and> (\<forall>n. mem_ok ks n) \<longrightarrow>
      fst (ks8851_rx_pkts3 h ks) = Rx_done \<or> fst (ks8851_rx_pkts3 h ks) = Rx_fault) \<and>
   (fst (ks8851_rx_pkts3 h ks) = Rx_nop \<longleftrightarrow> fst (ks8851_rdreg8 KS_RXFC ks) = 0)"
proof -
  obtain rxfc k1 where a: "ks8851_rdreg8 KS_RXFC ks = (rxfc, k1)"
    by (cases "ks8851_rdreg8 KS_RXFC ks")
  obtain sz k2 where b: "ks8851_rdfifolen (ucast rxfc) k1 = (sz, k2)"
    by (cases "ks8851_rdfifolen (ucast rxfc) k1")
  obtain ok k3 where c: "kmalloc k2 = (ok, k3)"
    by (cases "kmalloc k2")
  define k5 where "k5 = ks8851_wrreg16 KS_RXQCR (ucast (rc_rxqcr k3) OR RXQCR_SDA h)
                 (ks8851_wrreg16 KS_RXFDPR (RXFDPR_RXFPAI h) k3)"
  obtain buf k6 where d: "ks8851_rdfifo sz k5 = (buf, k6)"
    by (cases "ks8851_rdfifo sz k5")
  obtain ex k7 where e: "ks8851_rx_loop sz buf (Suc 0) rxfc 0 k6 = (ex, k7)"
    by (cases "ks8851_rx_loop sz buf (Suc 0) rxfc 0 k6")
  note u = rx_pkts3_unfold [OF a b c d [unfolded k5_def] e]
  note t = extends_by_trans
  note ct = rx_changes_only_trans
  \<comment> \<open>the states before the buffer is allocated\<close>
  have p1: "extends_by is_rx_probe_event ks k1" using probe_ext_rdreg8 [of ks] a by simp
  have p2: "extends_by is_rx_probe_event ks k2"
    using t [OF p1 probe_ext_rdfifolen [of k1 "ucast rxfc"]] b by simp
  have p3: "extends_by is_rx_probe_event ks k3"
    using t [OF p2, of k3] c trace_kmalloc [of k2] by (simp add: extends_by_same_trace)
  have c1: "rx_changes_only ks k1" using rx_changes_only_rdreg8 [of ks KS_RXFC] a by simp
  have c2: "rx_changes_only ks k2"
    using ct [OF c1 rx_changes_only_rdfifolen [of k1 "ucast rxfc"]] b by simp
  have c3: "rx_changes_only ks k3"
    using ct [OF c2 rx_changes_only_kmalloc [of k2]] c by simp
  have c5: "rx_changes_only ks k5"
    unfolding k5_def
    by (rule ct [OF ct [OF c3 rx_changes_only_wrreg16] rx_changes_only_wrreg16])
  have c6: "rx_changes_only ks k6"
    using ct [OF c5 rx_changes_only_rdfifo [of k5 sz]] d by simp
  have c7: "rx_changes_only ks k7"
    using ct [OF c6 rx_changes_only_loop [of k6 sz buf "Suc 0" rxfc 0]] e by simp
  \<comment> \<open>the log up to the end of the decode loop\<close>
  have e3: "extends_by is_rx_event ks k3"
    by (rule extends_by_mono [OF probe_event_is_rx_event p3])
  have e5: "extends_by is_rx_event ks k5"
    unfolding k5_def by (intro extends_by_wrreg16 e3) simp_all
  have e6: "extends_by is_rx_event ks k6"
    using t [OF e5 rx_ext_rdfifo [of k5 sz]] d by simp
  have e7: "extends_by is_rx_event ks k7"
    using t [OF e6 rx_ext_loop [of k6 sz buf "Suc 0" rxfc 0]] e by simp
  then obtain evs where evs: "trace k7 = trace ks @ evs" "list_all is_rx_event evs"
    by (auto simp add: extends_by_def)
  have q: "rc_rxqcr k7 = rc_rxqcr ks" by (rule rx_changes_only_fields(4) [OF c7])
  \<comment> \<open>the exits\<close>
  have x1: "ex \<noteq> Rx_nop \<and> ex \<noteq> Rx_nomem_len \<and> ex \<noteq> Rx_nomem_buf"
    using rx_loop_exit [of "\<lambda>e. e \<noteq> Rx_nop \<and> e \<noteq> Rx_nomem_len \<and> e \<noteq> Rx_nomem_buf"
        sz buf "Suc 0" rxfc 0 k6] e
    by simp
  have x2: "ex = Rx_done \<or> ex = Rx_fault" if m: "\<forall>n. mem_ok ks n"
  proof -
    from m rx_changes_only_fields(5) [OF c6] have "\<forall>n. mem_ok k6 n" by simp
    from rx_loop_exit_mem_ok [of "\<lambda>e. e = Rx_done \<or> e = Rx_fault", OF _ _ this,
        of sz buf "Suc 0" rxfc 0] e
    show ?thesis by simp
  qed
  have x3: "\<not> sint sz \<le> 0 \<and> ok" if m: "\<forall>n. mem_ok ks n"
  proof -
    from m rx_changes_only_fields(5) [OF c1] have m1: "\<forall>n. mem_ok k1 n" by simp
    from m rx_changes_only_fields(5) [OF c2] have m2: "\<forall>n. mem_ok k2 n" by simp
    from rdfifolen_positive [of k1 "ucast rxfc"] m1 b have "\<not> sint sz \<le> 0" by simp
    moreover from m2 c have ok by (auto simp add: kmalloc_def)
    ultimately show ?thesis by simp
  qed
  have w: "rx_changes_only ks (ks8851_wrreg16 KS_RXQCR v k7)" for v
    by (rule ct [OF c7 rx_changes_only_wrreg16])
  show ?thesis
    unfolding u a
    using c1 c2 c3 c7 w p2 p3 x1 x2 x3 evs q
    by (auto simp add: cpu_to_le16_def)
qed


text \<open>
  Two runs past the zero-count check that do not end with the acknowledgment: one where
  the size probe cannot allocate, which returns after the frame count read; one where the
  second buffer of the short-buffer branch cannot be allocated, which returns from inside
  the decode loop, leaving the FIFO access started.
\<close>

theorem rx_pkts3_no_ack_counterexample:
  "fst (ks8851_rdreg8 KS_RXFC ks_nomem) \<noteq> 0 \<and>
   fst (ks8851_rx_pkts3 h0 ks_nomem) = Rx_nomem_len \<and>
   trace (snd (ks8851_rx_pkts3 h0 ks_nomem)) = [Rdreg8 KS_RXFC] \<and>
   fst (ks8851_rdreg8 KS_RXFC ks_short) \<noteq> 0 \<and>
   fst (ks8851_rx_pkts3 h0 ks_short) = Rx_nomem_buf1 \<and>
   trace (snd (ks8851_rx_pkts3 h0 ks_short)) =
     [Rdreg8 KS_RXFC, Rdfifolen 1, Wrreg16 KS_RXFDPR 0x4000, Wrreg16 KS_RXQCR 0x8, Rdfifo 16]"
  by code_simp

text \<open>A run that delivers its one frame and acknowledges.\<close>

theorem rx_pkts3_acknowledges_witness:
  "fst (ks8851_rdreg8 KS_RXFC ks_one) \<noteq> 0 \<and> (\<forall>n. mem_ok ks_one n) \<and>
   fst (ks8851_rx_pkts3 h0 ks_one) = Rx_done \<and>
   trace (snd (ks8851_rx_pkts3 h0 ks_one)) =
     [Rdreg8 KS_RXFC, Rdfifolen 1, Wrreg16 KS_RXFDPR 0x4000, Wrreg16 KS_RXQCR 0x8, Rdfifo 16,
      Netif_rx [0x44332211] 4, Wrreg16 KS_RXQCR 0x1] \<and>
   txq (snd (ks8851_rx_pkts3 h0 ks_one)) = txq ks_one"
proof -
  have ev: "fst (ks8851_rdreg8 KS_RXFC ks_one) \<noteq> 0 \<and>
      fst (ks8851_rx_pkts3 h0 ks_one) = Rx_done \<and>
      trace (snd (ks8851_rx_pkts3 h0 ks_one)) =
        [Rdreg8 KS_RXFC, Rdfifolen 1, Wrreg16 KS_RXFDPR 0x4000, Wrreg16 KS_RXQCR 0x8, Rdfifo 16,
         Netif_rx [0x44332211] 4, Wrreg16 KS_RXQCR 0x1]"
    by code_simp
  have m: "\<forall>n. mem_ok ks_one n"
    by (simp add: ks_one_def ks8851_probe_def alloc_etherdev_def Let_def)
  from rx_pkts3_acknowledges [of ks_one h0]
  have "rx_changes_only ks_one (snd (ks8851_rx_pkts3 h0 ks_one))" by blast
  from rx_changes_only_fields(1) [OF this] ev m show ?thesis
    by simp
qed


subsection \<open>Two frames in one receive run\<close>


lemma rx_loop_step:
  assumes "rxfc \<noteq> 0" and "index32 < length buf32"
    and "drop_bit 16 (htonl (buf32 ! index32)) AND 0xfff = rxlen"
    and "\<not> totallen + ALIGN (rxlen - 4) 4 > rxfifosize"
    and "swap_words (index32 + 1) (unat (ucast (ALIGN rxlen 4 div 4) :: u16)) buf32 = Some bufs"
    and "rx_deliver bufs (index32 + 1) (ALIGN (rxlen - 4) 4) rxlen ks = Some ks1"
  shows "ks8851_rx_loop rxfifosize buf32 index32 rxfc totallen ks =
     ks8851_rx_loop rxfifosize bufs (index32 + 1 + unat (ucast (ALIGN rxlen 4 div 4) :: u16))
       (rxfc - 1) (totallen + ALIGN (rxlen - 4) 4) ks1"
  using assms by (subst ks8851_rx_loop.simps) (simp add: Let_def)

lemma rx_loop_end: "ks8851_rx_loop rxfifosize buf32 index32 0 totallen ks = (Rx_done, ks)"
  by (subst ks8851_rx_loop.simps) simp

lemma rx_deliver_ok:
  assumes "mem_ok ks (mem_pos ks)" and "4 * i + unat a \<le> 4 * length buf"
  shows "rx_deliver buf i a l ks =
     Some (ks\<lparr>mem_pos := mem_pos ks + 1,
              trace := trace ks @ [Netif_rx (take (unat a div 4) (drop i buf)) (unat a)],
              rx_packets := rx_packets ks + 1,
              rx_bytes := rx_bytes ks + ucast l\<rparr>)"
  using assms by (simp add: rx_deliver_def kmalloc_def emit_def Let_def)

lemma frame_100: "ALIGN 96 4 = (96 :: u32)" "(ucast (ALIGN 100 4 div 4 :: u32) :: u16) = 25"
  "ALIGN 100 4 + 4 = (104 :: u32)"
  by (simp_all add: ALIGN_def)

lemma frame_3000: "ALIGN 2996 4 = (2996 :: u32)"
  "(ucast (ALIGN 3000 4 div 4 :: u32) :: u16) = 750" "ALIGN 3000 4 + 4 = (3004 :: u32)"
  by (simp_all add: ALIGN_def)

lemma probe_two:
  assumes l1: "ucast (htons (ucast x1)) AND 0xfff = (100 :: u32)"
    and l2: "ucast (htons (ucast x2)) AND 0xfff = (3000 :: u32)"
  shows "ks8851_rdfifolen_loop [x1, x2] 0 = 3108"
  by (simp add: l1 l2 frame_100 frame_3000 MAX_RXFIFO_SIZE_def)


lemma upt_two: "[n..<n + 2] = [n, Suc n]"
  by (simp add: upt_rec)

lemma rx_pkts3_two_frames:
  assumes fc: "ucast (ucast (dev_in ks (dev_pos ks)) :: u8) = (2 :: u32)"
    and l1: "ucast (htons (ucast (dev_in ks (dev_pos ks + 1)))) AND 0xfff = (100 :: u32)"
    and l2: "ucast (htons (ucast (dev_in ks (dev_pos ks + 2)))) AND 0xfff = (3000 :: u32)"
    and e1: "drop_bit 16 (htonl (dev_in ks (dev_pos ks + 4))) AND 0xfff = 100"
    and e2: "drop_bit 16 (htonl (dev_in ks (dev_pos ks + 30))) AND 0xfff = 3000"
    and mem: "\<forall>i<5. mem_ok ks (mem_pos ks + i)"
  shows "fst (ks8851_rdfifolen 2 (snd (ks8851_rdreg8 KS_RXFC ks))) = 3112 \<and>
     fst (ks8851_rx_pkts3 h ks) = Rx_done \<and>
     (\<exists>p1 p2. trace (snd (ks8851_rx_pkts3 h ks)) =
        trace ks @
          [Rdreg8 KS_RXFC, Rdfifolen 2,
           Wrreg16 KS_RXFDPR (cpu_to_le16 (RXFDPR_RXFPAI h)),
           Wrreg16 KS_RXQCR (cpu_to_le16 (ucast (rc_rxqcr ks) OR RXQCR_SDA h)),
           Rdfifo 3112, Netif_rx p1 96, Netif_rx p2 2996,
           Wrreg16 KS_RXQCR (cpu_to_le16 (ucast (rc_rxqcr ks) OR RXQCR_RRXEF h))] \<and>
        length p1 = 24 \<and> length p2 = 749) \<and>
     rx_packets (snd (ks8851_rx_pkts3 h ks)) = rx_packets ks + 2 \<and>
     rx_bytes (snd (ks8851_rx_pkts3 h ks)) = rx_bytes ks + 3100"
proof -
  define p where "p = dev_pos ks"
  define q where "q = mem_pos ks"
  from mem have m: "mem_ok ks q" "mem_ok ks (Suc q)" "mem_ok ks (q + 2)" "mem_ok ks (q + 3)"
    "mem_ok ks (q + 4)"
    unfolding q_def
    using mem [rule_format, of 0] mem [rule_format, of 1] mem [rule_format, of 2]
      mem [rule_format, of 3] mem [rule_format, of 4]
    by simp_all
  define k1 where "k1 = ks\<lparr>trace := trace ks @ [Rdreg8 KS_RXFC], dev_pos := p + 1\<rparr>"
  have a: "ks8851_rdreg8 KS_RXFC ks = (2, k1)"
    using fc by (simp add: ks8851_rdreg8_def bus_read_def emit_def Let_def k1_def p_def)
  define k2 where "k2 = k1\<lparr>mem_pos := q + 2, trace := trace k1 @ [Rdfifolen 2], dev_pos := p + 3\<rparr>"
  have pr: "ks8851_rdfifolen_loop [dev_in ks (Suc p), dev_in ks (Suc (Suc p))] 0 = 3108"
    using probe_two [OF l1 l2] by (simp add: p_def del: ks8851_rdfifolen_loop.simps)
  have b: "ks8851_rdfifolen (ucast (2 :: u32)) k1 = (3112, k2)"
    using m
    by (simp add: ks8851_rdfifolen_def kmalloc_def emit_def Let_def k1_def k2_def q_def
        upt_two MAX_RXFIFO_SIZE_def pr del: ks8851_rdfifolen_loop.simps)
  define k3 where "k3 = k2\<lparr>mem_pos := q + 3\<rparr>"
  have c: "kmalloc k2 = (True, k3)"
    using m by (simp add: kmalloc_def k3_def k2_def k1_def)
  define k6 where "k6 = k3\<lparr>trace := trace k3 @
      [Wrreg16 KS_RXFDPR (cpu_to_le16 (RXFDPR_RXFPAI h)),
       Wrreg16 KS_RXQCR (cpu_to_le16 (ucast (rc_rxqcr ks) OR RXQCR_SDA h)), Rdfifo 3112],
      dev_pos := p + 781\<rparr>"
  define buf where "buf = map (dev_in ks) [p + 3..<p + 781]"
  have d: "ks8851_rdfifo 3112
              (ks8851_wrreg16 KS_RXQCR (ucast (rc_rxqcr k3) OR RXQCR_SDA h)
                 (ks8851_wrreg16 KS_RXFDPR (RXFDPR_RXFPAI h) k3)) = (buf, k6)"
    by (simp add: ks8851_rdfifo_def ks8851_wrreg16_def emit_def Let_def k6_def buf_def
        k3_def k2_def k1_def add.commute [of 781 p])
  have lb: "length buf = 778" by (simp add: buf_def)
  have b1: "buf ! Suc 0 = dev_in ks (dev_pos ks + 4)" "buf ! 27 = dev_in ks (dev_pos ks + 30)"
    by (simp_all add: buf_def p_def add.commute)
  define bufa where "bufa = take 2 buf @ map htonl (take 25 (drop 2 buf)) @ drop 27 buf"
  have la: "length bufa = 778" by (simp add: bufa_def lb)
  have sa: "swap_words 2 25 buf = Some bufa"
    by (simp add: swap_words_def lb bufa_def)
  define k7 where "k7 = k6\<lparr>mem_pos := q + 4,
      trace := trace k6 @ [Netif_rx (take 24 (drop 2 bufa)) 96],
      rx_packets := rx_packets ks + 1, rx_bytes := rx_bytes ks + 100\<rparr>"
  have da: "rx_deliver bufa 2 96 100 k6 = Some k7"
    using m(4)
    by (subst rx_deliver_ok) (simp_all add: la k7_def k6_def k3_def k2_def k1_def)
  have s1: "ks8851_rx_loop 3112 buf 1 2 0 k6 = ks8851_rx_loop 3112 bufa 27 1 96 k7"
  proof -
    have sa': "swap_words (Suc (Suc 0)) 25 buf = Some bufa"
      using sa by (simp add: numeral_2_eq_2)
    have da': "rx_deliver bufa (Suc (Suc 0)) 96 100 k6 = Some k7"
      using da by (simp add: numeral_2_eq_2)
    show ?thesis
      using rx_loop_step [where rxfc = 2 and ?index32.0 = 1 and ?buf32.0 = buf and rxlen = 100
          and totallen = 0 and rxfifosize = 3112 and bufs = bufa and ks = k6 and ?ks1.0 = k7]
        sa' da'
      by (simp add: lb b1 e1 frame_100)
  qed
  have a27: "bufa ! 27 = buf ! 27"
    by (simp add: bufa_def nth_append lb)
  define bufb where "bufb = take 28 bufa @ map htonl (take 750 (drop 28 bufa)) @ drop 778 bufa"
  have lbb: "length bufb = 778" by (simp add: bufb_def la)
  have sb: "swap_words 28 750 bufa = Some bufb"
    by (simp add: swap_words_def la bufb_def)
  define k8 where "k8 = k7\<lparr>mem_pos := q + 5,
      trace := trace k7 @ [Netif_rx (take 749 (drop 28 bufb)) 2996],
      rx_packets := rx_packets ks + 2, rx_bytes := rx_bytes ks + 3100\<rparr>"
  have db: "rx_deliver bufb 28 2996 3000 k7 = Some k8"
    using m(5)
    by (subst rx_deliver_ok) (simp_all add: lbb k8_def k7_def k6_def k3_def k2_def k1_def)
  have s2: "ks8851_rx_loop 3112 bufa 27 1 96 k7 = ks8851_rx_loop 3112 bufb 778 0 3092 k8"
    using rx_loop_step [where rxfc = 1 and ?index32.0 = 27 and ?buf32.0 = bufa and rxlen = 3000
        and totallen = 96 and rxfifosize = 3112 and bufs = bufb and ks = k7 and ?ks1.0 = k8]
      sb db
    by (simp add: la a27 b1 e2 frame_3000)
  have e: "ks8851_rx_loop 3112 buf (Suc 0) 2 0 k6 = (Rx_done, k8)"
    using s1 s2 by (simp add: rx_loop_end)
  note u = rx_pkts3_unfold [OF a b c d e]
  have r: "ks8851_rx_pkts3 h ks =
      (Rx_done, ks8851_wrreg16 KS_RXQCR (ucast (rc_rxqcr k8) OR RXQCR_RRXEF h) k8)"
    using u by simp
  have est: "fst (ks8851_rdfifolen 2 (snd (ks8851_rdreg8 KS_RXFC ks))) = 3112"
    using a b by simp
  have tr: "trace (snd (ks8851_rx_pkts3 h ks)) =
        trace ks @
          [Rdreg8 KS_RXFC, Rdfifolen 2,
           Wrreg16 KS_RXFDPR (cpu_to_le16 (RXFDPR_RXFPAI h)),
           Wrreg16 KS_RXQCR (cpu_to_le16 (ucast (rc_rxqcr ks) OR RXQCR_SDA h)),
           Rdfifo 3112, Netif_rx (take 24 (drop 2 bufa)) 96,
           Netif_rx (take 749 (drop 28 bufb)) 2996,
           Wrreg16 KS_RXQCR (cpu_to_le16 (ucast (rc_rxqcr ks) OR RXQCR_RRXEF h))]"
    by (simp add: r k8_def k7_def k6_def k3_def k2_def k1_def cpu_to_le16_def)
  have cnt: "rx_packets (snd (ks8851_rx_pkts3 h ks)) = rx_packets ks + 2"
    "rx_bytes (snd (ks8851_rx_pkts3 h ks)) = rx_bytes ks + 3100"
    by (simp_all add: r k8_def ks8851_wrreg16_def emit_def)
  have len: "length (take 24 (drop 2 bufa)) = 24" "length (take 749 (drop 28 bufb)) = 749"
    by (simp_all add: la lbb)
  from est r tr cnt len show ?thesis
    by (intro conjI exI [of _ "take 24 (drop 2 bufa)"] exI [of _ "take 749 (drop 28 bufb)"])
       simp_all
qed



lemma ks_B_fields:
  "dev_pos ks_B = 0" "mem_pos ks_B = 0" "dev_in ks_B = dev_B" "mem_ok ks_B = (\<lambda>n. True)"
  "trace ks_B = []" "rx_packets ks_B = 0" "rx_bytes ks_B = 0" "rc_rxqcr ks_B = 0"
  by (simp_all add: ks_B_def ks8851_probe_def alloc_etherdev_def Let_def)

lemma dev_B_answers:
  "ucast (ucast (dev_B 0) :: u8) = (2 :: u32)"
  "ucast (htons (ucast (dev_B (Suc 0)))) AND 0xfff = (100 :: u32)"
  "ucast (htons (ucast (dev_B (Suc (Suc 0))))) AND 0xfff = (3000 :: u32)"
  "ucast (htons (ucast (dev_B 2))) AND 0xfff = (3000 :: u32)"
  "drop_bit 16 (htonl (dev_B 4)) AND 0xfff = 100"
  "drop_bit 16 (htonl (dev_B 30)) AND 0xfff = 3000"
  by (simp_all add: dev_B_def htons_def htonl_def)

text \<open>
  C4, as the code has it. When the frame count register reports 2 frames, the byte-count
  register answers 100 and 3000, the envelopes in the FIFO carry the same two lengths and
  the allocations succeed, the size probe adds \<open>align(len, 4) + 4\<close> for each frame and
  one more word: 104 + 3004 + 4 = 3112 bytes, read in one bulk transfer. The decode loop
  hands exactly two buffers to the stack, filled with 96 and 2996 bytes (each length less
  the 4-byte checksum, rounded up to a word), counts two packets and 100 + 3000 bytes,
  and ends with the acknowledging write. For any answers of the byte-count register, the
  probe adds no further frame once its running total has reached \<open>MAX_RXFIFO_SIZE\<close>, and
  its estimate never exceeds \<open>MAX_RXFIFO_SIZE\<close>.
\<close>

theorem scenario_B:
  assumes fc: "ucast (ucast (dev_in ks (dev_pos ks)) :: u8) = (2 :: u32)"
    and l1: "ucast (htons (ucast (dev_in ks (dev_pos ks + 1)))) AND 0xfff = (100 :: u32)"
    and l2: "ucast (htons (ucast (dev_in ks (dev_pos ks + 2)))) AND 0xfff = (3000 :: u32)"
    and e1: "drop_bit 16 (htonl (dev_in ks (dev_pos ks + 4))) AND 0xfff = 100"
    and e2: "drop_bit 16 (htonl (dev_in ks (dev_pos ks + 30))) AND 0xfff = 3000"
    and mem: "\<forall>i<5. mem_ok ks (mem_pos ks + i)"
  shows "fst (ks8851_rdreg8 KS_RXFC ks) = 2 \<and>
     fst (ks8851_rdfifolen 2 (snd (ks8851_rdreg8 KS_RXFC ks))) = 3112 \<and>
     fst (ks8851_rx_pkts3 h ks) = Rx_done \<and>
     (\<exists>p1 p2. trace (snd (ks8851_rx_pkts3 h ks)) =
        trace ks @
          [Rdreg8 KS_RXFC, Rdfifolen 2,
           Wrreg16 KS_RXFDPR (cpu_to_le16 (RXFDPR_RXFPAI h)),
           Wrreg16 KS_RXQCR (cpu_to_le16 (ucast (rc_rxqcr ks) OR RXQCR_SDA h)),
           Rdfifo 3112, Netif_rx p1 96, Netif_rx p2 2996,
           Wrreg16 KS_RXQCR (cpu_to_le16 (ucast (rc_rxqcr ks) OR RXQCR_RRXEF h))] \<and>
        length p1 = 24 \<and> length p2 = 749) \<and>
     delivered_lengths (drop (length (trace ks)) (trace (snd (ks8851_rx_pkts3 h ks)))) =
       [96, 2996] \<and>
     rx_packets (snd (ks8851_rx_pkts3 h ks)) = rx_packets ks + 2 \<and>
     rx_bytes (snd (ks8851_rx_pkts3 h ks)) = rx_bytes ks + 3100 \<and>
     (MAX_RXFIFO_SIZE \<le> ucast t \<longrightarrow> ks8851_rdfifolen_loop rxd t = t) \<and>
     (mem_ok ks' (mem_pos ks') \<and> mem_ok ks' (Suc (mem_pos ks')) \<longrightarrow>
        unat (fst (ks8851_rdfifolen n ks')) \<le> unat MAX_RXFIFO_SIZE)"
proof -
  note t = rx_pkts3_two_frames [OF fc l1 l2 e1 e2 mem, of h]
  have stop: "MAX_RXFIFO_SIZE \<le> ucast t \<longrightarrow> ks8851_rdfifolen_loop rxd t = t"
    by (cases rxd) simp_all
  have cap: "mem_ok ks' (mem_pos ks') \<and> mem_ok ks' (Suc (mem_pos ks')) \<longrightarrow>
        unat (fst (ks8851_rdfifolen n ks')) \<le> unat MAX_RXFIFO_SIZE"
    using rdfifolen_value [of ks' n] by (simp add: MAX_RXFIFO_SIZE_def)
  from t obtain p1 p2 where
    tr: "trace (snd (ks8851_rx_pkts3 h ks)) =
        trace ks @
          [Rdreg8 KS_RXFC, Rdfifolen 2,
           Wrreg16 KS_RXFDPR (cpu_to_le16 (RXFDPR_RXFPAI h)),
           Wrreg16 KS_RXQCR (cpu_to_le16 (ucast (rc_rxqcr ks) OR RXQCR_SDA h)),
           Rdfifo 3112, Netif_rx p1 96, Netif_rx p2 2996,
           Wrreg16 KS_RXQCR (cpu_to_le16 (ucast (rc_rxqcr ks) OR RXQCR_RRXEF h))]"
    by blast
  have dl: "delivered_lengths (drop (length (trace ks)) (trace (snd (ks8851_rx_pkts3 h ks)))) =
       [96, 2996]"
    by (simp add: tr)
  have fc': "fst (ks8851_rdreg8 KS_RXFC ks) = 2"
    using fc by (simp add: ks8851_rdreg8_def bus_read_def emit_def Let_def)
  from t dl fc' stop cap show ?thesis
    by blast
qed

text \<open>The device \<open>ks_B\<close> of scenario B, run.\<close>

theorem scenario_B_witness:
  "ucast (htons (ucast (dev_B 1))) AND 0xfff = (100 :: u32) \<and>
   ucast (htons (ucast (dev_B 2))) AND 0xfff = (3000 :: u32) \<and>
   fst (ks8851_rdreg8 KS_RXFC ks_B) = 2 \<and>
   fst (ks8851_rdfifolen 2 (snd (ks8851_rdreg8 KS_RXFC ks_B))) = 3112 \<and>
   fst (ks8851_rx_pkts3 h0 ks_B) = Rx_done \<and>
   delivered_lengths (trace (snd (ks8851_rx_pkts3 h0 ks_B))) = [96, 2996] \<and>
   rx_packets (snd (ks8851_rx_pkts3 h0 ks_B)) = 2 \<and>
   rx_bytes (snd (ks8851_rx_pkts3 h0 ks_B)) = 3100 \<and>
   MAX_RXFIFO_SIZE \<le> ucast (12288 :: u16) \<and>
   ks8851_rdfifolen_loop [dev_B 1, dev_B 2] 12288 = 12288 \<and>
   unat (fst (ks8851_rdfifolen 2 ks_B)) \<le> 12288"
  using scenario_B [where ks = ks_B and h = h0 and t = 12288 and rxd = "[dev_B 1, dev_B 2]"
      and ks' = ks_B and n = 2]
  by (simp add: ks_B_fields dev_B_answers MAX_RXFIFO_SIZE_def)

text \<open>
  On the same device the estimate of the size probe is not 3104, and the buffers handed
  to the stack do not have the lengths 100 and 3000.
\<close>

theorem scenario_B_counterexample:
  "fst (ks8851_rdreg8 KS_RXFC ks_B) = 2 \<and>
   ucast (htons (ucast (dev_in ks_B 1))) AND 0xfff = (100 :: u32) \<and>
   ucast (htons (ucast (dev_in ks_B 2))) AND 0xfff = (3000 :: u32) \<and>
   fst (ks8851_rdfifolen 2 (snd (ks8851_rdreg8 KS_RXFC ks_B))) = 3112 \<and>
   fst (ks8851_rdfifolen 2 (snd (ks8851_rdreg8 KS_RXFC ks_B))) \<noteq> 3104 \<and>
   delivered_lengths (trace (snd (ks8851_rx_pkts3 h0 ks_B))) = [96, 2996] \<and>
   delivered_lengths (trace (snd (ks8851_rx_pkts3 h0 ks_B))) \<noteq> [100, 3000]"
proof -
  note t = rx_pkts3_two_frames [of ks_B h0]
  have hy: "ucast (ucast (dev_in ks_B (dev_pos ks_B)) :: u8) = (2 :: u32)"
    "ucast (htons (ucast (dev_in ks_B (dev_pos ks_B + 1)))) AND 0xfff = (100 :: u32)"
    "ucast (htons (ucast (dev_in ks_B (dev_pos ks_B + 2)))) AND 0xfff = (3000 :: u32)"
    "drop_bit 16 (htonl (dev_in ks_B (dev_pos ks_B + 4))) AND 0xfff = 100"
    "drop_bit 16 (htonl (dev_in ks_B (dev_pos ks_B + 30))) AND 0xfff = 3000"
    "\<forall>i<5. mem_ok ks_B (mem_pos ks_B + i)"
    by (simp_all add: ks_B_fields dev_B_answers)
  from t [OF hy] obtain p1 p2 where
    est: "fst (ks8851_rdfifolen 2 (snd (ks8851_rdreg8 KS_RXFC ks_B))) = 3112"
    and tr: "trace (snd (ks8851_rx_pkts3 h0 ks_B)) =
        trace ks_B @
          [Rdreg8 KS_RXFC, Rdfifolen 2,
           Wrreg16 KS_RXFDPR (cpu_to_le16 (RXFDPR_RXFPAI h0)),
           Wrreg16 KS_RXQCR (cpu_to_le16 (ucast (rc_rxqcr ks_B) OR RXQCR_SDA h0)),
           Rdfifo 3112, Netif_rx p1 96, Netif_rx p2 2996,
           Wrreg16 KS_RXQCR (cpu_to_le16 (ucast (rc_rxqcr ks_B) OR RXQCR_RRXEF h0))]"
    by blast
  have dl: "delivered_lengths (trace (snd (ks8851_rx_pkts3 h0 ks_B))) = [96, 2996]"
    by (simp add: tr ks_B_fields)
  have fc: "fst (ks8851_rdreg8 KS_RXFC ks_B) = 2"
    by (simp add: ks8851_rdreg8_def bus_read_def emit_def Let_def ks_B_fields dev_B_answers)
  show ?thesis
    by (simp add: est dl fc ks_B_fields dev_B_answers)
qed


subsection \<open>The acknowledged status bits\<close>
















subsection \<open>The interrupt handler and the receive filter\<close>









lemma isr_write_not_filter_write: "\<not> is_filter_write (Wrreg16 KS_ISR v)"
  by simp




end
